theory Spec2Isabelle
  imports Main "HOL-Library.AList"
begin

section \<open>JavaScript values used by the editor core\<close>

text \<open>
  The counters of the program (the else-if and else counts of a block, the index of a
  loop) are JavaScript numbers that are an integer or NaN: \<open>parseInt\<close> returns one or
  the other and \<open>++\<close> keeps them. They are modelled exactly, as unbounded integers;
  JavaScript agrees with that below \<open>2^53\<close>. Truthiness follows \<open>ToBoolean\<close>: zero and
  NaN are falsy. The coordinates of a block are numbers of any value and are not of this
  type (see the clipboard below).
\<close>

datatype jsnum = NaN | Num int

definition truthy :: "jsnum \<Rightarrow> bool" where
  "truthy v = (case v of NaN \<Rightarrow> False | Num n \<Rightarrow> n \<noteq> 0)"

definition js_neg :: "jsnum \<Rightarrow> jsnum" where
  "js_neg v = (case v of NaN \<Rightarrow> NaN | Num n \<Rightarrow> Num (- n))"

definition js_inc :: "jsnum \<Rightarrow> jsnum" where
  "js_inc v = (case v of NaN \<Rightarrow> NaN | Num n \<Rightarrow> Num (n + 1))"

text \<open>
  The values \<open>i\<close> of a loop \<open>for (var i = 1; i <= n; i++)\<close> whose body leaves
  \<open>i\<close> and \<open>n\<close> alone. Every comparison with NaN is false, so the loop does not run
  for \<open>n = NaN\<close>. The descending loop \<open>for (var i = n; i > 0; i--)\<close> visits the same
  values in reverse.
\<close>

definition js_upto :: "jsnum \<Rightarrow> int list" where
  "js_upto n = (case n of NaN \<Rightarrow> [] | Num k \<Rightarrow> [1..k])"

definition js_downto :: "jsnum \<Rightarrow> int list" where
  "js_downto n = rev (js_upto n)"

text \<open>Number to string (\<open>ToString\<close>) for these counters: the decimal numeral, as
  string concatenation and \<open>setAttribute\<close> produce it for an integer.\<close>

definition digit_char :: "nat \<Rightarrow> char" where
  "digit_char d = ''0123456789'' ! d"

fun nat_digits :: "nat \<Rightarrow> string" where
  "nat_digits n =
     (if n < 10 then [digit_char n] else nat_digits (n div 10) @ [digit_char (n mod 10)])"

definition ToString :: "jsnum \<Rightarrow> string" where
  "ToString v = (case v of NaN \<Rightarrow> ''NaN''
     | Num i \<Rightarrow> if i < 0 then CHR ''-'' # nat_digits (nat (- i)) else nat_digits (nat i))"

text \<open>
  Character classes. A \<open>char\<close> stands for a code unit below 256; the white space of
  \<open>\s\<close> and of \<open>parseInt\<close> in that range is TAB, LF, VT, FF, CR, SP and NBSP.
\<close>

definition is_space :: "char \<Rightarrow> bool" where
  "is_space c = ((of_char c :: nat) \<in> {9, 10, 11, 12, 13, 32, 160})"

definition is_digit :: "char \<Rightarrow> bool" where
  "is_digit c = (48 \<le> (of_char c :: nat) \<and> (of_char c :: nat) \<le> 57)"

definition digit_val :: "char \<Rightarrow> nat" where
  "digit_val c = of_char c - 48"

definition digits_value :: "string \<Rightarrow> nat" where
  "digits_value z = foldl (\<lambda>acc c. 10 * acc + digit_val c) 0 z"

text \<open>
  \<open>parseInt(v, 10)\<close> on the result of \<open>getAttribute\<close>: \<open>None\<close> is \<open>null\<close>, which
  \<open>parseInt\<close> first turns into the string \<open>null\<close>. Leading white space is dropped, one
  sign is read, then the longest prefix of decimal digits; no digit gives NaN.
\<close>

definition parseInt10 :: "string option \<Rightarrow> jsnum" where
  "parseInt10 a =
    (let s = dropWhile is_space (case a of None \<Rightarrow> ''null'' | Some v \<Rightarrow> v);
         neg = (case s of [] \<Rightarrow> False | c # r \<Rightarrow> c = CHR ''-'');
         t = (case s of [] \<Rightarrow> s | c # r \<Rightarrow> if c = CHR ''-'' \<or> c = CHR ''+'' then r else s);
         z = takeWhile is_digit t
     in if z = [] then NaN
        else Num ((if neg then - 1 else 1) * int (digits_value z)))"

section \<open>The XML document model\<close>

datatype xml = Element (nodeName: string) (attributes: "(string \<times> string) list")
  (childNodes: "xml list")

definition setAttribute :: "string \<Rightarrow> string \<Rightarrow> xml \<Rightarrow> xml" where
  "setAttribute n v e = Element (nodeName e) (AList.update n v (attributes e)) (childNodes e)"

definition getAttribute :: "xml \<Rightarrow> string \<Rightarrow> string option" where
  "getAttribute e n = map_of (attributes e) n"

text \<open>
  Modelled from the spec: \<open>Blockly.Xml.deleteNext\<close> is not among the source files.
  It removes the \<open>next\<close> child of a block element, the element that holds the chain of
  blocks following the block.
\<close>

definition is_next :: "xml \<Rightarrow> bool" where
  "is_next c = (nodeName c = ''next'')"

fun remove_next :: "xml list \<Rightarrow> xml list" where
  "remove_next [] = []"
| "remove_next (c # cs) = (if is_next c then cs else c # remove_next cs)"

definition deleteNext :: "xml \<Rightarrow> xml" where
  "deleteNext e = Element (nodeName e) (attributes e) (remove_next (childNodes e))"

section \<open>blockly.js: global state, clipboard and key handling\<close>

text \<open>
  Isabelle names cannot end in an underscore: the private names of the source
  (\<open>copy_\<close>, \<open>clipboardXml_\<close>, \<open>onKeyDown_\<close>, ...) lose theirs.

  The coordinates of a block are JavaScript numbers of any value: fractions, large
  values, NaN. Their type is the parameter \<open>'c\<close>, and the two primitives of the
  language that \<open>copy_\<close> applies to a coordinate are parameters too: the unary minus,
  and the conversion of a number to the string that \<open>setAttribute\<close> stores.
\<close>

record 'c number_ops =
  negate :: "'c \<Rightarrow> 'c"
  NumberToString :: "'c \<Rightarrow> string"

text \<open>
  A block as the functions of \<open>blockly.js\<close> see it: the workspace it lives in, its
  \<open>RTL\<close> flag, and the results of the methods they call on it (\<open>isDeletable()\<close>,
  \<open>isMovable()\<close>, \<open>getRelativeToSurfaceXY()\<close>, and \<open>Blockly.Xml.blockToDom\<close> of
  the block).
\<close>

record 'c block =
  block_id :: nat
  workspace :: nat
  RTL :: bool
  isDeletable :: bool
  isMovable :: bool
  getRelativeToSurfaceXY :: "'c \<times> 'c"
  blockToDom :: xml

datatype drag_mode = DRAG_NONE | DRAG_STICKY | DRAG_FREE

text \<open>
  Calls that leave \<open>blockly.js\<close> (workspace, block, event, tooltip and toolbox methods)
  are recorded in order, with their arguments; what such a call does to the page is not
  part of the model. \<open>Uncaught\<close> is an exception that ends the handler: a method call
  on \<open>null\<close>.
\<close>

datatype 'c effect =
    TooltipHide
  | WidgetDivHide
  | ToolboxClearSelection
  | PreventDefault
  | SetGroup bool
  | Paste nat xml
  | Dispose "'c block" bool bool
  | Unhighlight nat
  | Undo nat bool
  | SaveToClipCache xml
  | PasteFromClipCache nat
  | Uncaught string

text \<open>The variables of the namespace \<open>Blockly\<close> that the functions below read or
  assign, the two properties of the main workspace they test, and the calls recorded so
  far.\<close>

record 'c blockly =
  mainWorkspace :: nat
  readOnly :: bool
  toolboxAutoClose :: bool
  selected :: "'c block option"
  highlightedConnection :: "nat option"
  clipboardXml :: "xml option"
  clipboardSource :: "nat option"
  dragMode :: drag_mode
  effects :: "'c effect list"

record key_event =
  keyCode :: nat
  altKey :: bool
  ctrlKey :: bool
  metaKey :: bool
  shiftKey :: bool
  isTargetInput :: bool

definition emit :: "'c effect \<Rightarrow> 'c blockly \<Rightarrow> 'c blockly" where
  "emit x st = st\<lparr>effects := effects st @ [x]\<rparr>"

text \<open>\<open>Blockly.hideChaff\<close>; \<open>toolboxAutoClose\<close> is the conjunction
  \<open>workspace.toolbox_ && workspace.toolbox_.flyout_ && workspace.toolbox_.flyout_.autoClose\<close>
  of the main workspace.\<close>

definition hideChaff :: "bool \<Rightarrow> 'c blockly \<Rightarrow> 'c blockly" where
  "hideChaff opt_allowToolbox st =
    (let st1 = emit WidgetDivHide (emit TooltipHide st)
     in if \<not> opt_allowToolbox \<and> toolboxAutoClose st1 then emit ToolboxClearSelection st1
        else st1)"

definition copy :: "'c number_ops \<Rightarrow> 'c block \<Rightarrow> 'c blockly \<Rightarrow> 'c blockly" where
  "copy ops b st =
    (let xmlBlock = blockToDom b;
         xmlBlock = (if dragMode st \<noteq> DRAG_FREE then deleteNext xmlBlock else xmlBlock);
         xy = getRelativeToSurfaceXY b;
         xmlBlock = setAttribute ''x''
                      (NumberToString ops (if RTL b then negate ops (fst xy) else fst xy))
                      xmlBlock;
         xmlBlock = setAttribute ''y'' (NumberToString ops (snd xy)) xmlBlock
     in st\<lparr>clipboardXml := Some xmlBlock, clipboardSource := Some (workspace b)\<rparr>)"

text \<open>\<open>ws.paste(x)\<close> for a workspace reference and an element, either of which
  may be \<open>null\<close>.\<close>

definition paste :: "nat option \<Rightarrow> xml option \<Rightarrow> 'c blockly \<Rightarrow> 'c blockly" where
  "paste ws x st =
    (case ws of
       None \<Rightarrow> emit (Uncaught ''TypeError'') st
     | Some w \<Rightarrow>
        (case x of
           None \<Rightarrow> emit (Uncaught ''TypeError'') st
         | Some xmlBlock \<Rightarrow> emit (Paste w xmlBlock) st))"

definition duplicate :: "'c number_ops \<Rightarrow> 'c block \<Rightarrow> 'c blockly \<Rightarrow> 'c blockly" where
  "duplicate ops b st =
    (let savedXml = clipboardXml st;
         savedSource = clipboardSource st;
         st1 = copy ops b st;
         st2 = paste (Some (workspace b)) (clipboardXml st1) st1
     in st2\<lparr>clipboardXml := savedXml, clipboardSource := savedSource\<rparr>)"

text \<open>The body of \<open>if (deleteBlock)\<close>, the code shared by delete and cut.\<close>

definition delete_selected :: "'c blockly \<Rightarrow> 'c blockly" where
  "delete_selected st =
    (let st1 = hideChaff False (emit (SetGroup True) st);
         heal = (dragMode st1 \<noteq> DRAG_FREE)
     in case selected st1 of
          None \<Rightarrow> emit (Uncaught ''TypeError'') st1
        | Some b \<Rightarrow>
            (let st2 = emit (Dispose b heal True) st1;
                 st3 = (case highlightedConnection st2 of
                          None \<Rightarrow> st2
                        | Some c \<Rightarrow> (emit (Unhighlight c) st2)\<lparr>highlightedConnection := None\<rparr>)
             in emit (SetGroup False) st3))"

text \<open>The paste key of the first modifier branch.\<close>

definition paste_clipboard :: "'c blockly \<Rightarrow> 'c blockly" where
  "paste_clipboard st =
    (case clipboardXml st of
       None \<Rightarrow> st
     | Some x \<Rightarrow>
        (case clipboardSource st of
           None \<Rightarrow> emit (Uncaught ''TypeError'') (emit (SetGroup True) st)
         | Some w \<Rightarrow>
            emit (SetGroup False) (paste (Some w) (Some x) (emit (SetGroup True) st))))"

text \<open>
  \<open>Blockly.onKeyDown\<close>. The first component of each branch is the local flag
  \<open>deleteBlock\<close>.
\<close>

definition copy_or_cut ::
  "'c number_ops \<Rightarrow> key_event \<Rightarrow> 'c blockly \<Rightarrow> bool \<times> 'c blockly" where
  "copy_or_cut ops e st =
    (case selected st of
       None \<Rightarrow> (False, st)
     | Some b \<Rightarrow>
        if isDeletable b \<and> isMovable b then
          (if keyCode e = 67 then (False, copy ops b (hideChaff False st))
           else if keyCode e = 88 then (True, copy ops b st)
           else (False, st))
        else (False, st))"

definition paste_undo_redo :: "key_event \<Rightarrow> 'c blockly \<Rightarrow> 'c blockly" where
  "paste_undo_redo e st =
    (if keyCode e = 86 then paste_clipboard st
     else if keyCode e = 90 then emit (Undo (mainWorkspace st) (shiftKey e)) (hideChaff False st)
     else if keyCode e = 89 then emit (Undo (mainWorkspace st) True) (hideChaff False st)
     else st)"

definition clip_cache_keys :: "key_event \<Rightarrow> 'c blockly \<Rightarrow> 'c blockly" where
  "clip_cache_keys e st =
    (let st1 = (case selected st of
                  None \<Rightarrow> st
                | Some b \<Rightarrow>
                    if isDeletable b \<and> isMovable b \<and> keyCode e = 67
                    then emit (SaveToClipCache (blockToDom b)) st else st)
     in if keyCode e = 86 then emit (PasteFromClipCache (mainWorkspace st1)) st1 else st1)"

definition onKeyDown :: "'c number_ops \<Rightarrow> key_event \<Rightarrow> 'c blockly \<Rightarrow> 'c blockly" where
  "onKeyDown ops e st =
    (if readOnly st \<or> isTargetInput e then st
     else
       let (deleteBlock, st1) =
         (if keyCode e = 27 then (False, hideChaff False st)
          else if keyCode e = 8 \<or> keyCode e = 46 then
            (let st' = emit PreventDefault st
             in (case selected st' of None \<Rightarrow> False | Some b \<Rightarrow> isDeletable b, st'))
          else if (altKey e \<or> ctrlKey e \<or> metaKey e) \<and> \<not> shiftKey e then
            (let (del, st') = copy_or_cut ops e st in (del, paste_undo_redo e st'))
          else if shiftKey e \<and> ctrlKey e then (False, clip_cache_keys e st)
          else (False, st))
       in if deleteBlock then delete_selected st1 else st1)"

subsection \<open>Sample values\<close>

definition sample_dom :: xml where
  "sample_dom = Element ''block'' [(''type'', ''controls_if''), (''x'', ''0'')]
     [Element ''value'' [(''name'', ''IF0'')] [], Element ''next'' [] [Element ''block'' [] []]]"

text \<open>Integer coordinates with the decimal numeral as their string, and coordinates given
  by their decimal numeral (a string), whose minus sign is a leading \<open>-\<close> (none for
  zero).\<close>

definition integer_ops :: "jsnum number_ops" where
  "integer_ops = \<lparr>negate = js_neg, NumberToString = ToString\<rparr>"

definition decimal_ops :: "string number_ops" where
  "decimal_ops =
     \<lparr>negate = (\<lambda>s. if s = ''0'' then s
                     else case s of [] \<Rightarrow> s | c # r \<Rightarrow> if c = CHR ''-'' then r else CHR ''-'' # s),
      NumberToString = (\<lambda>s. s)\<rparr>"

definition sample_block :: "jsnum block" where
  "sample_block = \<lparr>block_id = 7, workspace = 1, RTL = True, isDeletable = True, isMovable = True,
     getRelativeToSurfaceXY = (Num 30, Num 12), blockToDom = sample_dom\<rparr>"

definition fraction_block :: "string block" where
  "fraction_block = \<lparr>block_id = 8, workspace = 2, RTL = True, isDeletable = True,
     isMovable = True, getRelativeToSurfaceXY = (''30.5'', ''12.25''), blockToDom = sample_dom\<rparr>"

definition fraction_state :: "string blockly" where
  "fraction_state = \<lparr>mainWorkspace = 2, readOnly = False, toolboxAutoClose = False,
     selected = Some fraction_block, highlightedConnection = None, clipboardXml = None,
     clipboardSource = None, dragMode = DRAG_FREE, effects = []\<rparr>"

definition sample_state :: "jsnum blockly" where
  "sample_state = \<lparr>mainWorkspace = 1, readOnly = False, toolboxAutoClose = True,
     selected = Some sample_block, highlightedConnection = Some 4, clipboardXml = None,
     clipboardSource = None, dragMode = DRAG_NONE, effects = []\<rparr>"

definition key :: "nat \<Rightarrow> key_event" where
  "key k = \<lparr>keyCode = k, altKey = False, ctrlKey = True, metaKey = False, shiftKey = False,
     isTargetInput = False\<rparr>"

section \<open>blockly.js: block definitions from a JSON array\<close>

text \<open>
  The \<open>type\<close> property of an element: \<open>null\<close> or \<open>undefined\<close> (\<open>Missing\<close>), a
  string, or a value of another kind, given by the property key it converts to (a number
  \<open>5\<close> by \<open>''5''\<close>). Only a string can be \<open>=== ''\<close>.
\<close>

datatype type_property = Missing | TypeString string | TypeOther string

definition property_key :: "type_property \<Rightarrow> string" where
  "property_key t = (case t of Missing \<Rightarrow> ''undefined'' | TypeString s \<Rightarrow> s | TypeOther k \<Rightarrow> k)"

text \<open>
  A JSON block definition: its \<open>type\<close> property and the rest of the object. An array
  element is an object, or a falsy value (\<open>None\<close>: \<open>null\<close>, \<open>undefined\<close>, or a falsy
  primitive).
\<close>

record jsonDef =
  elem_type :: type_property
  elem_body :: string

text \<open>\<open>Blockly.jsonInitFactory_\<close> returns a closure that calls \<open>jsonInit\<close> with the
  definition it was made for.\<close>

datatype init_function = JsonInit jsonDef

definition jsonInitFactory :: "jsonDef \<Rightarrow> init_function" where
  "jsonInitFactory jsonDef = JsonInit jsonDef"

record block_definition =
  init :: init_function

text \<open>
  \<open>Blockly.Blocks\<close> is a plain object. Besides block definitions it holds other values
  (the namespace \<open>Blockly.Blocks.loops\<close>), and a property read also finds what the object
  inherits (\<open>toString\<close>, \<open>constructor\<close>). A member is a block definition or another
  value, of which the truthiness is kept.
\<close>

datatype member = Definition block_definition | Other bool

text \<open>
  The object: its own properties; the members it inherits from \<open>Object.prototype\<close>, where
  an entry for \<open>__proto__\<close> stands for the accessor of that name; and the object that an
  assignment to \<open>__proto__\<close> has put in front of \<open>Object.prototype\<close>, if any. With it
  the messages passed to \<open>console.warn\<close>.
\<close>

record registry =
  Blocks :: "string \<rightharpoonup> member"
  inherited :: "string \<rightharpoonup> member"
  prototype :: "block_definition option"
  console :: "string list"

text \<open>The property read \<open>Blockly.Blocks[k]\<close> (\<open>None\<close> is \<open>undefined\<close>) and the
  truthiness of its result.\<close>

definition get_member :: "registry \<Rightarrow> string \<Rightarrow> member option" where
  "get_member st k =
     (case Blocks st k of
        Some v \<Rightarrow> Some v
      | None \<Rightarrow>
         (case prototype st of
            None \<Rightarrow> inherited st k
          | Some d \<Rightarrow>
             if k = ''init'' then Some (Other True)
             else if k = ''__proto__'' \<and> inherited st k \<noteq> None then Some (Definition d)
             else inherited st k))"

definition is_truthy :: "member option \<Rightarrow> bool" where
  "is_truthy m = (case m of None \<Rightarrow> False | Some (Definition d) \<Rightarrow> True | Some (Other t) \<Rightarrow> t)"

text \<open>
  The assignment \<open>Blockly.Blocks[k] = d\<close> of a block definition: it makes or replaces an
  own property, except that for \<open>__proto__\<close>, when the accessor is inherited and not
  shadowed, it replaces the prototype of the object.
\<close>

definition set_member :: "string \<Rightarrow> block_definition \<Rightarrow> registry \<Rightarrow> registry" where
  "set_member k d st =
     (if k = ''__proto__'' \<and> Blocks st k = None \<and> inherited st k \<noteq> None
      then st\<lparr>prototype := Some d\<rparr>
      else st\<lparr>Blocks := (Blocks st)(k \<mapsto> Definition d)\<rparr>)"

definition warn :: "string \<Rightarrow> registry \<Rightarrow> registry" where
  "warn msg st = st\<lparr>console := console st @ [msg]\<rparr>"

definition missing_type_warning :: "nat \<Rightarrow> string" where
  "missing_type_warning i =
     ''Block definition #'' @ ToString (Num (int i)) @
     '' in JSON array is missing a type attribute. Skipping.''"

definition overwrite_warning :: "nat \<Rightarrow> string \<Rightarrow> string" where
  "overwrite_warning i typename =
     ''Block definition #'' @ ToString (Num (int i)) @
     '' in JSON array overwrites prior definition of \"'' @ typename @ ''\".''"

text \<open>The body of the loop, for the element \<open>elem\<close> at index \<open>i\<close>.\<close>

definition define_elem :: "nat \<Rightarrow> jsonDef \<Rightarrow> registry \<Rightarrow> registry" where
  "define_elem i elem st =
    (let typename = elem_type elem
     in if typename = Missing \<or> typename = TypeString [] then
          warn (missing_type_warning i) st
        else
          (let st1 = (if is_truthy (get_member st (property_key typename))
                      then warn (overwrite_warning i (property_key typename)) st
                      else st)
           in set_member (property_key typename) \<lparr>init = jsonInitFactory elem\<rparr> st1))"

text \<open>
  The loop \<open>for (var i = 0, elem; elem = jsonArray[i]; i++)\<close>, on the elements from
  index \<open>i\<close> on: it ends at the end of the array (\<open>jsonArray[i]\<close> is \<open>undefined\<close>) and
  at a falsy element.
\<close>

fun define_from :: "nat \<Rightarrow> jsonDef option list \<Rightarrow> registry \<Rightarrow> registry" where
  "define_from i [] st = st"
| "define_from i (None # rest) st = st"
| "define_from i (Some elem # rest) st = define_from (Suc i) rest (define_elem i elem st)"

definition defineBlocksWithJsonArray :: "jsonDef option list \<Rightarrow> registry \<Rightarrow> registry" where
  "defineBlocksWithJsonArray jsonArray st = define_from 0 jsonArray st"

text \<open>What one processed definition does to the own properties, in the words of the
  specification: a definition without a type is skipped, any other is registered under
  its type, over whatever was there.\<close>

definition has_type :: "jsonDef \<Rightarrow> bool" where
  "has_type d = (elem_type d \<noteq> Missing \<and> elem_type d \<noteq> TypeString [])"

definition register :: "jsonDef \<Rightarrow> (string \<rightharpoonup> member) \<Rightarrow> (string \<rightharpoonup> member)" where
  "register d B =
     (if has_type d then B(property_key (elem_type d) \<mapsto> Definition \<lparr>init = JsonInit d\<rparr>)
      else B)"

definition processed :: "jsonDef option list \<Rightarrow> jsonDef list" where
  "processed jsonArray = map the (takeWhile (\<lambda>e. e \<noteq> None) jsonArray)"

definition sample_defs :: "jsonDef option list" where
  "sample_defs =
     [Some \<lparr>elem_type = TypeString ''a'', elem_body = ''1''\<rparr>,
      Some \<lparr>elem_type = Missing, elem_body = ''2''\<rparr>,
      Some \<lparr>elem_type = TypeString '''', elem_body = ''3''\<rparr>,
      Some \<lparr>elem_type = TypeString ''a'', elem_body = ''4''\<rparr>,
      None,
      Some \<lparr>elem_type = TypeString ''b'', elem_body = ''5''\<rparr>]"

text \<open>A registry with no block definition yet: the namespace \<open>loops\<close> is an own
  property, and \<open>Object.prototype\<close> gives \<open>toString\<close>, \<open>constructor\<close> and the accessor
  \<open>__proto__\<close>.\<close>

definition empty_registry :: registry where
  "empty_registry =
     \<lparr>Blocks = [''loops'' \<mapsto> Other True],
      inherited = [''toString'' \<mapsto> Other True, ''constructor'' \<mapsto> Other True,
                   ''__proto__'' \<mapsto> Other True],
      prototype = None,
      console = []\<rparr>"

section \<open>blockly.js: binding events with touch checks\<close>

record touch =
  touch_id :: nat
  touchX :: int
  touchY :: int

text \<open>An event; \<open>changedTouches\<close> is \<open>None\<close> for a mouse event, which has no such
  property.\<close>

record event =
  ev_type :: string
  changedTouches :: "touch list option"
  clientX :: int
  clientY :: int

text \<open>
  Modelled from the spec: \<open>Blockly.Touch.splitEventByTouches\<close> is not among the source
  files. It splits an event into one event per changed touch point; for a mouse event it
  hands back an array with that one event.
\<close>

definition splitEventByTouches :: "event \<Rightarrow> event list" where
  "splitEventByTouches e =
     (case changedTouches e of
        None \<Rightarrow> [e]
      | Some ts \<Rightarrow> map (\<lambda>t. e\<lparr>changedTouches := Some [t]\<rparr>) ts)"

text \<open>
  The other two functions of \<open>Blockly.Touch\<close> that the wrapper calls are parameters:
  \<open>shouldHandleEvent\<close> reads and may update the touch identifier that is being tracked
  (part of the state \<open>'s\<close>), \<open>setClientFromTouch\<close> updates the event it is given.
\<close>

record 's touch_api =
  shouldHandleEvent :: "event \<Rightarrow> 's \<Rightarrow> bool \<times> 's"
  setClientFromTouch :: "event \<Rightarrow> event"

text \<open>What a listener does, in order: a check with its result, a call of the bound
  function, a call of \<open>preventDefault\<close>.\<close>

datatype call = Checked event bool | Invoked event | Prevented

text \<open>The state a listener works on: the variable \<open>handled\<close> of the closure, the
  state of the page, and the calls made so far.\<close>

record 's listener_state =
  handled :: bool
  world :: 's
  calls :: "call list"

text \<open>The call of the bound function: \<open>func.call(thisObject, event)\<close> when
  \<open>thisObject\<close> is given, \<open>func(event)\<close> otherwise.\<close>

definition call_func ::
  "'o option \<Rightarrow> ('o option \<Rightarrow> event \<Rightarrow> 's \<Rightarrow> 's) \<Rightarrow> event \<Rightarrow> 's \<Rightarrow> 's" where
  "call_func thisObject func ev w =
     (case thisObject of Some obj \<Rightarrow> func (Some obj) ev w | None \<Rightarrow> func None ev w)"

text \<open>The loop of \<open>wrapFunc\<close> over the events of the split.\<close>

fun wrap_loop ::
  "'s touch_api \<Rightarrow> 'o option \<Rightarrow> ('o option \<Rightarrow> event \<Rightarrow> 's \<Rightarrow> 's) \<Rightarrow> bool \<Rightarrow> event list \<Rightarrow>
   's listener_state \<Rightarrow> 's listener_state" where
  "wrap_loop api thisObject func captureIdentifier [] ls = ls"
| "wrap_loop api thisObject func captureIdentifier (ev # events) ls =
    (let (skip, ls1) =
       (if captureIdentifier then
          (let (ok, w) = shouldHandleEvent api ev (world ls)
           in (\<not> ok, ls\<lparr>world := w, calls := calls ls @ [Checked ev ok]\<rparr>))
        else (False, ls))
     in if skip then wrap_loop api thisObject func captureIdentifier events ls1
        else
          (let ev1 = setClientFromTouch api ev;
               w1 = call_func thisObject func ev1 (world ls1);
               ls2 = ls1\<lparr>handled := True, world := w1, calls := calls ls1 @ [Invoked ev1]\<rparr>
           in wrap_loop api thisObject func captureIdentifier events ls2))"

definition wrapFunc ::
  "'s touch_api \<Rightarrow> 'o option \<Rightarrow> ('o option \<Rightarrow> event \<Rightarrow> 's \<Rightarrow> 's) \<Rightarrow> bool \<Rightarrow> event \<Rightarrow>
   's listener_state \<Rightarrow> 's listener_state" where
  "wrapFunc api thisObject func opt_noCaptureIdentifier e ls =
    (let captureIdentifier = \<not> opt_noCaptureIdentifier;
         events = splitEventByTouches e
     in wrap_loop api thisObject func captureIdentifier events ls)"

definition touchWrapFunc ::
  "'s touch_api \<Rightarrow> 'o option \<Rightarrow> ('o option \<Rightarrow> event \<Rightarrow> 's \<Rightarrow> 's) \<Rightarrow> bool \<Rightarrow> event \<Rightarrow>
   's listener_state \<Rightarrow> 's listener_state" where
  "touchWrapFunc api thisObject func opt_noCaptureIdentifier e ls =
    (let ls1 = wrapFunc api thisObject func opt_noCaptureIdentifier e ls
     in if handled ls1 then ls1\<lparr>calls := calls ls1 @ [Prevented]\<rparr> else ls1)"

text \<open>
  \<open>Blockly.bindEventWithChecks_\<close> registers \<open>wrapFunc\<close> for the event name, and
  \<open>touchWrapFunc\<close> for each touch event name that \<open>Blockly.Touch.TOUCH_MAP\<close> (a
  parameter) gives for it, up to the first falsy (empty) name. It returns the list of
  registrations.
\<close>

datatype listener = WrapFunc | TouchWrapFunc

definition bindEventWithChecks ::
  "(string \<rightharpoonup> string list) \<Rightarrow> nat \<Rightarrow> string \<Rightarrow> (nat \<times> string \<times> listener) list" where
  "bindEventWithChecks TOUCH_MAP node name =
    (let bindData = [(node, name, WrapFunc)]
     in case TOUCH_MAP name of
          None \<Rightarrow> bindData
        | Some names \<Rightarrow>
            bindData @ map (\<lambda>eventName. (node, eventName, TouchWrapFunc))
                         (takeWhile (\<lambda>eventName. eventName \<noteq> []) names))"

text \<open>The events a list of calls checked, with the results, and the events it passed
  to the bound function.\<close>

fun checked_events :: "call list \<Rightarrow> (event \<times> bool) list" where
  "checked_events [] = []"
| "checked_events (Checked ev ok # cs) = (ev, ok) # checked_events cs"
| "checked_events (c # cs) = checked_events cs"

fun invoked_events :: "call list \<Rightarrow> event list" where
  "invoked_events [] = []"
| "invoked_events (Invoked ev # cs) = ev # invoked_events cs"
| "invoked_events (c # cs) = invoked_events cs"

text \<open>
  What a list of calls does to the state of the page when it is carried out again: a
  check updates the state as \<open>shouldHandleEvent\<close> does and has to give the recorded
  result (\<open>None\<close> otherwise), an invocation applies the bound function, with
  \<open>thisObject\<close> as its \<open>this\<close>, to the recorded event.
\<close>

fun replay ::
  "'s touch_api \<Rightarrow> 'o option \<Rightarrow> ('o option \<Rightarrow> event \<Rightarrow> 's \<Rightarrow> 's) \<Rightarrow> call list \<Rightarrow> 's \<Rightarrow>
   's option" where
  "replay api thisObject func [] w = Some w"
| "replay api thisObject func (Checked ev ok # cs) w =
     (if fst (shouldHandleEvent api ev w) = ok
      then replay api thisObject func cs (snd (shouldHandleEvent api ev w)) else None)"
| "replay api thisObject func (Invoked ev # cs) w =
     replay api thisObject func cs (func thisObject ev w)"
| "replay api thisObject func (Prevented # cs) w = replay api thisObject func cs w"

text \<open>A sample touch interface: the state is the identifier being tracked, if any; an
  event is handled when its touch has that identifier, and the first touch seen is the
  one tracked from then on.\<close>

definition sample_api :: "nat option touch_api" where
  "sample_api =
     \<lparr>shouldHandleEvent = (\<lambda>ev tracked.
          case changedTouches ev of
            None \<Rightarrow> (True, tracked)
          | Some ts \<Rightarrow>
             (case tracked of
                None \<Rightarrow> (True, Some (touch_id (hd ts)))
              | Some i \<Rightarrow> (touch_id (hd ts) = i, tracked))),
      setClientFromTouch = (\<lambda>ev.
          case changedTouches ev of
            None \<Rightarrow> ev
          | Some ts \<Rightarrow> ev\<lparr>clientX := touchX (hd ts), clientY := touchY (hd ts)\<rparr>)\<rparr>"

definition sample_event :: event where
  "sample_event =
     \<lparr>ev_type = ''touchstart'',
      changedTouches = Some [\<lparr>touch_id = 5, touchX = 1, touchY = 2\<rparr>,
                             \<lparr>touch_id = 6, touchX = 3, touchY = 4\<rparr>],
      clientX = 0, clientY = 0\<rparr>"

definition sample_listener :: "nat option listener_state" where
  "sample_listener = \<lparr>handled = False, world = None, calls = []\<rparr>"

definition sample_func :: "unit option \<Rightarrow> event \<Rightarrow> nat option \<Rightarrow> nat option" where
  "sample_func this ev tracked = tracked"

text \<open>A second sample interface, whose check does not depend on the state: it accepts
  mouse events and the touch with identifier 5.\<close>

definition accepts_5 :: "event \<Rightarrow> bool" where
  "accepts_5 ev =
     (case changedTouches ev of None \<Rightarrow> True | Some [] \<Rightarrow> False | Some (t # ts) \<Rightarrow> touch_id t = 5)"

definition fixed_api :: "int touch_api" where
  "fixed_api =
     \<lparr>shouldHandleEvent = (\<lambda>ev tracked. (accepts_5 ev, tracked)),
      setClientFromTouch = setClientFromTouch sample_api\<rparr>"

text \<open>A bound function that adds the \<open>clientX\<close> of the events it receives, and a
  listener state that starts at 0.\<close>

definition sum_func :: "unit option \<Rightarrow> event \<Rightarrow> int \<Rightarrow> int" where
  "sum_func this ev w = w + clientX ev"

definition sum_listener :: "int listener_state" where
  "sum_listener = \<lparr>handled = False, world = 0, calls = []\<rparr>"

section \<open>blockly.js: the number test\<close>

text \<open>
  Regular expressions as far as the pattern of \<open>Blockly.isNumber\<close> needs them:
  character classes, sequence, alternative and repetition. \<open>Never\<close> matches nothing and
  \<open>Empty\<close> the empty string only.
\<close>

datatype 'a regex =
    Never
  | Empty
  | Class "'a \<Rightarrow> bool"
  | Seq "'a regex" "'a regex"
  | Alt "'a regex" "'a regex"
  | Star "'a regex"

definition Chr :: "'a \<Rightarrow> 'a regex" where
  "Chr c = Class (\<lambda>x. x = c)"

definition Opt :: "'a regex \<Rightarrow> 'a regex" where
  "Opt r = Alt r Empty"

definition Plus :: "'a regex \<Rightarrow> 'a regex" where
  "Plus r = Seq r (Star r)"

text \<open>The strings a regular expression matches as a whole.\<close>

inductive_set repetitions :: "'a list set \<Rightarrow> 'a list set" for A :: "'a list set" where
  none: "[] \<in> repetitions A"
| more: "u \<in> A \<Longrightarrow> v \<in> repetitions A \<Longrightarrow> u @ v \<in> repetitions A"

fun lang :: "'a regex \<Rightarrow> 'a list set" where
  "lang Never = {}"
| "lang Empty = {[]}"
| "lang (Class p) = {[c] | c. p c}"
| "lang (Seq r s) = {u @ v | u v. u \<in> lang r \<and> v \<in> lang s}"
| "lang (Alt r s) = lang r \<union> lang s"
| "lang (Star r) = repetitions (lang r)"

text \<open>
  The matcher: \<open>deriv c r\<close> matches what \<open>r\<close> matches after a first character \<open>c\<close>, and
  \<open>nullable r\<close> tells whether \<open>r\<close> matches the empty string. \<open>matches\<close> is a match of the
  whole string, what the anchors \<open>^\<close> and \<open>$\<close> ask for.
\<close>

fun nullable :: "'a regex \<Rightarrow> bool" where
  "nullable Never = False"
| "nullable Empty = True"
| "nullable (Class p) = False"
| "nullable (Seq r s) = (nullable r \<and> nullable s)"
| "nullable (Alt r s) = (nullable r \<or> nullable s)"
| "nullable (Star r) = True"

fun deriv :: "'a \<Rightarrow> 'a regex \<Rightarrow> 'a regex" where
  "deriv c Never = Never"
| "deriv c Empty = Never"
| "deriv c (Class p) = (if p c then Empty else Never)"
| "deriv c (Seq r s) =
     (if nullable r then Alt (Seq (deriv c r) s) (deriv c s) else Seq (deriv c r) s)"
| "deriv c (Alt r s) = Alt (deriv c r) (deriv c s)"
| "deriv c (Star r) = Seq (deriv c r) (Star r)"

definition matches :: "'a regex \<Rightarrow> 'a list \<Rightarrow> bool" where
  "matches r w = nullable (fold deriv w r)"

text \<open>The pattern \<open>/^\s*-?\d+(\.\d+)?\s*$/\<close>.\<close>

definition number_pattern :: "char regex" where
  "number_pattern =
     Seq (Star (Class is_space))
       (Seq (Opt (Chr CHR ''-''))
          (Seq (Plus (Class is_digit))
             (Seq (Opt (Seq (Chr CHR ''.'') (Plus (Class is_digit))))
                (Star (Class is_space)))))"

definition isNumber :: "string \<Rightarrow> bool" where
  "isNumber str = matches number_pattern str"

text \<open>
  The strings of the specification: optional leading white space, an optional minus
  sign, one or more digits, an optional fractional part (a dot followed by one or more
  digits), and optional trailing white space.
\<close>

definition number_syntax :: "string \<Rightarrow> bool" where
  "number_syntax s =
     (\<exists>lead sign ds frac trail.
        s = lead @ sign @ ds @ frac @ trail \<and>
        list_all is_space lead \<and>
        (sign = [] \<or> sign = ''-'') \<and>
        ds \<noteq> [] \<and> list_all is_digit ds \<and>
        (frac = [] \<or> (\<exists>fs. frac = CHR ''.'' # fs \<and> fs \<noteq> [] \<and> list_all is_digit fs)) \<and>
        list_all is_space trail)"

section \<open>The \<open>controls_if\<close> block and its mutator\<close>

text \<open>
  An input of a block: its name, its kind, the type check set with \<open>setCheck\<close>, the
  labels added with \<open>appendField\<close> (constants of \<open>Blockly.Msg\<close>) and the connection of
  the child block plugged into it, if any.
\<close>

datatype input_kind = VALUE | STATEMENT

datatype msg = CONTROLS_IF_MSG_IF | CONTROLS_IF_MSG_THEN | CONTROLS_IF_MSG_ELSEIF
  | CONTROLS_IF_MSG_ELSE

record input =
  name :: string
  kind :: input_kind
  check :: "string list"
  fieldRow :: "msg list"
  targetConnection :: "nat option"

text \<open>The \<open>controls_if\<close> block: its two counters and its inputs, in order.\<close>

record if_block =
  elseifCount :: jsnum
  elseCount :: jsnum
  inputList :: "input list"

datatype error = InputNotFound string | UnknownBlockType

text \<open>
  The methods of \<open>Blockly.Block\<close> that the block definition calls are not among the
  source files. \<open>appendValueInput\<close> and \<open>appendStatementInput\<close> add an input at the end
  of the input list; the calls chained to them (\<open>setCheck\<close>, \<open>appendField\<close>,
  \<open>connection.connect\<close>) set the fields of that input. \<open>removeInput\<close> removes the first
  input of the given name and throws when there is none.
\<close>

definition appendInput :: "input \<Rightarrow> if_block \<Rightarrow> if_block" where
  "appendInput i b = b\<lparr>inputList := inputList b @ [i]\<rparr>"

fun remove_named :: "string \<Rightarrow> input list \<Rightarrow> input list option" where
  "remove_named n [] = None"
| "remove_named n (i # rest) =
     (if name i = n then Some rest
      else case remove_named n rest of None \<Rightarrow> None | Some rest' \<Rightarrow> Some (i # rest'))"

definition removeInput :: "string \<Rightarrow> if_block \<Rightarrow> error + if_block" where
  "removeInput n b =
     (case remove_named n (inputList b) of
        None \<Rightarrow> Inl (InputNotFound n)
      | Some rest \<Rightarrow> Inr (b\<lparr>inputList := rest\<rparr>))"

text \<open>The inputs the block definition creates. A value input is created by
  \<open>appendValueInput(n).setCheck([Boolean, Number]).appendField(label)\<close>, a statement
  input by \<open>appendStatementInput(n).appendField(label)\<close>; \<open>c\<close> is the connection
  plugged in afterwards, if any.\<close>

definition value_input :: "string \<Rightarrow> msg \<Rightarrow> nat option \<Rightarrow> input" where
  "value_input n label c =
     \<lparr>name = n, kind = VALUE, check = [''Boolean'', ''Number''], fieldRow = [label],
      targetConnection = c\<rparr>"

definition statement_input :: "string \<Rightarrow> msg \<Rightarrow> nat option \<Rightarrow> input" where
  "statement_input n label c =
     \<lparr>name = n, kind = STATEMENT, check = [], fieldRow = [label], targetConnection = c\<rparr>"

definition if_input :: "jsnum \<Rightarrow> nat option \<Rightarrow> input" where
  "if_input i c = value_input (''IF'' @ ToString i) CONTROLS_IF_MSG_ELSEIF c"

definition do_input :: "jsnum \<Rightarrow> nat option \<Rightarrow> input" where
  "do_input i c = statement_input (''DO'' @ ToString i) CONTROLS_IF_MSG_THEN c"

definition else_input :: "nat option \<Rightarrow> input" where
  "else_input c = statement_input ''ELSE'' CONTROLS_IF_MSG_ELSE c"

definition init_block :: if_block where
  "init_block =
     appendInput (statement_input ''DO0'' CONTROLS_IF_MSG_THEN None)
       (appendInput (value_input ''IF0'' CONTROLS_IF_MSG_IF None)
          \<lparr>elseifCount = Num 0, elseCount = Num 0, inputList = []\<rparr>)"

subsection \<open>Mutation to and from XML\<close>

definition mutationToDom :: "if_block \<Rightarrow> xml option" where
  "mutationToDom b =
    (if \<not> truthy (elseifCount b) \<and> \<not> truthy (elseCount b) then None
     else
       (let container = Element ''mutation'' [] [];
            container = (if truthy (elseifCount b)
                         then setAttribute ''elseif'' (ToString (elseifCount b)) container
                         else container);
            container = (if truthy (elseCount b)
                         then setAttribute ''else'' (ToString (Num 1)) container
                         else container)
        in Some container))"

definition domToMutation :: "xml \<Rightarrow> if_block \<Rightarrow> if_block" where
  "domToMutation xmlElement b =
    (let b1 = b\<lparr>elseifCount := parseInt10 (getAttribute xmlElement ''elseif'')\<rparr>;
         b2 = b1\<lparr>elseCount := parseInt10 (getAttribute xmlElement ''else'')\<rparr>;
         b3 = fold (\<lambda>i b. appendInput (do_input (Num i) None)
                              (appendInput (if_input (Num i) None) b))
                (js_upto (elseifCount b2)) b2
     in if truthy (elseCount b3) then appendInput (else_input None) b3 else b3)"

subsection \<open>The mutator dialog\<close>

text \<open>
  A block of the mutator workspace below the container: its type and the connections
  \<open>saveConnections\<close> stored on it (absent on a new block). The container block is given
  by the blocks stacked in its input \<open>STACK\<close>, from the first, each the target of the
  next connection of the one before.
\<close>

record clause =
  clause_type :: string
  valueConnection :: "nat option"
  statementConnection :: "nat option"

record container =
  stack :: "clause list"

definition newBlock :: "string \<Rightarrow> clause" where
  "newBlock t = \<lparr>clause_type = t, valueConnection = None, statementConnection = None\<rparr>"

definition decompose :: "if_block \<Rightarrow> container" where
  "decompose b =
    (let chain = fold (\<lambda>i chain. chain @ [newBlock ''controls_if_elseif''])
                   (js_upto (elseifCount b)) [];
         chain = (if truthy (elseCount b) then chain @ [newBlock ''controls_if_else'']
                  else chain)
     in \<lparr>stack = chain\<rparr>)"

text \<open>The first loop of \<open>compose\<close>, removing the inputs of the else-if clauses.\<close>

fun remove_elseifs :: "int list \<Rightarrow> if_block \<Rightarrow> error + if_block" where
  "remove_elseifs [] b = Inr b"
| "remove_elseifs (i # rest) b =
     (case removeInput (''IF'' @ ToString (Num i)) b of
        Inl e \<Rightarrow> Inl e
      | Inr b1 \<Rightarrow>
         (case removeInput (''DO'' @ ToString (Num i)) b1 of
            Inl e \<Rightarrow> Inl e
          | Inr b2 \<Rightarrow> remove_elseifs rest b2))"

text \<open>The second loop of \<open>compose\<close>, over the clause blocks of the container.\<close>

fun rebuild :: "clause list \<Rightarrow> if_block \<Rightarrow> error + if_block" where
  "rebuild [] b = Inr b"
| "rebuild (clauseBlock # rest) b =
     (if clause_type clauseBlock = ''controls_if_elseif'' then
        (let b1 = b\<lparr>elseifCount := js_inc (elseifCount b)\<rparr>;
             b2 = appendInput (if_input (elseifCount b1) (valueConnection clauseBlock)) b1;
             b3 = appendInput (do_input (elseifCount b2) (statementConnection clauseBlock)) b2
         in rebuild rest b3)
      else if clause_type clauseBlock = ''controls_if_else'' then
        (let b1 = b\<lparr>elseCount := js_inc (elseCount b)\<rparr>;
             b2 = appendInput (else_input (statementConnection clauseBlock)) b1
         in rebuild rest b2)
      else Inl UnknownBlockType)"

definition compose :: "container \<Rightarrow> if_block \<Rightarrow> error + if_block" where
  "compose containerBlock b =
    (case (if truthy (elseCount b) then removeInput ''ELSE'' b else Inr b) of
       Inl e \<Rightarrow> Inl e
     | Inr b1 \<Rightarrow>
        (case remove_elseifs (js_downto (elseifCount b1)) (b1\<lparr>elseCount := Num 0\<rparr>) of
           Inl e \<Rightarrow> Inl e
         | Inr b2 \<Rightarrow> rebuild (stack containerBlock) (b2\<lparr>elseifCount := Num 0\<rparr>)))"

text \<open>
  The optional inputs that go with a pair of counters, and a block whose inputs are
  those of \<open>init\<close> followed by the optional inputs of its counters (under any
  connections).
\<close>

definition optional_inputs :: "jsnum \<Rightarrow> jsnum \<Rightarrow> input list" where
  "optional_inputs n e =
     concat (map (\<lambda>i. [if_input (Num i) None, do_input (Num i) None]) (js_upto n)) @
     (if truthy e then [else_input None] else [])"

definition consistent :: "if_block \<Rightarrow> bool" where
  "consistent b =
     (map name (inputList b) =
        ''IF0'' # ''DO0'' # map name (optional_inputs (elseifCount b) (elseCount b)))"

definition sample_if :: "int \<Rightarrow> int \<Rightarrow> if_block" where
  "sample_if n e =
     \<lparr>elseifCount = Num n, elseCount = Num e,
      inputList = inputList init_block @ optional_inputs (Num n) (Num e)\<rparr>"

text \<open>How often a loop \<open>for (var i = 1; i <= n; i++)\<close> runs.\<close>

definition iterations :: "jsnum \<Rightarrow> nat" where
  "iterations n = (case n of NaN \<Rightarrow> 0 | Num k \<Rightarrow> nat k)"

text \<open>The names of the inputs of \<open>m\<close> else-if clauses, in order.\<close>

definition elseif_names :: "nat \<Rightarrow> string list" where
  "elseif_names m =
     concat (map (\<lambda>i. [''IF'' @ ToString (Num i), ''DO'' @ ToString (Num i)]) [1..int m])"

section \<open>Numbers and strings\<close>

declare nat_digits.simps [simp del]

lemma digit_char_code: "d < 10 \<Longrightarrow> of_char (digit_char d) = 48 + d"
proof -
  assume "d < 10"
  then have "d \<in> {0, 1, 2, 3, 4, 5, 6, 7, 8, 9}" by auto
  then show ?thesis by (auto simp: digit_char_def)
qed

lemma is_digit_digit_char: "d < 10 \<Longrightarrow> is_digit (digit_char d)"
  by (simp add: is_digit_def digit_char_code)

lemma digit_val_digit_char: "d < 10 \<Longrightarrow> digit_val (digit_char d) = d"
  by (simp add: digit_val_def digit_char_code)

lemma nat_digits_all_digits: "list_all is_digit (nat_digits n)"
proof (induction n rule: nat_digits.induct)
  case (1 n)
  show ?case
  proof (cases "n < 10")
    case True
    then show ?thesis by (simp add: nat_digits.simps [of n] is_digit_digit_char)
  next
    case False
    with 1 show ?thesis by (simp add: nat_digits.simps [of n] is_digit_digit_char)
  qed
qed

lemma nat_digits_nonempty: "nat_digits n \<noteq> []"
  by (subst nat_digits.simps) simp

lemma digits_value_snoc: "digits_value (z @ [c]) = 10 * digits_value z + digit_val c"
  by (simp add: digits_value_def)

lemma digits_value_nat_digits: "digits_value (nat_digits n) = n"
proof (induction n rule: nat_digits.induct)
  case (1 n)
  show ?case
  proof (cases "n < 10")
    case True
    then show ?thesis by (simp add: nat_digits.simps [of n] digits_value_def digit_val_digit_char)
  next
    case False
    with 1 show ?thesis
      by (simp add: nat_digits.simps [of n] digits_value_snoc digit_val_digit_char)
  qed
qed

lemma is_digit_not_space: "is_digit c \<Longrightarrow> \<not> is_space c"
  by (auto simp: is_digit_def is_space_def)

lemma is_digit_not_sign: "is_digit c \<Longrightarrow> c \<noteq> CHR ''-'' \<and> c \<noteq> CHR ''+''"
  by (auto simp: is_digit_def)

lemma takeWhile_all: "list_all P xs \<Longrightarrow> takeWhile P xs = xs"
  by (induction xs) auto

lemma parseInt10_digits:
  assumes "list_all is_digit z" "z \<noteq> []"
  shows "parseInt10 (Some z) = Num (int (digits_value z))"
    and "parseInt10 (Some (CHR ''-'' # z)) = Num (- int (digits_value z))"
proof -
  obtain c r where z: "z = c # r" using assms(2) by (cases z) auto
  have c: "is_digit c" using assms(1) z by simp
  have tw: "takeWhile is_digit z = z" using assms(1) by (rule takeWhile_all)
  have tr: "takeWhile is_digit r = r" using assms(1) z by (simp add: takeWhile_all)
  show "parseInt10 (Some z) = Num (int (digits_value z))"
    using c is_digit_not_space [OF c] is_digit_not_sign [OF c]
    by (simp add: parseInt10_def z tr)
  have m: "\<not> is_space CHR ''-''" by (simp add: is_space_def)
  show "parseInt10 (Some (CHR ''-'' # z)) = Num (- int (digits_value z))"
    using m assms(2) by (simp add: parseInt10_def tw)
qed

lemma parseInt10_ToString: "parseInt10 (Some (ToString (Num i))) = Num i"
  by (simp add: ToString_def parseInt10_digits nat_digits_all_digits nat_digits_nonempty
      digits_value_nat_digits)

lemma ToString_Num_inj: "ToString (Num i) = ToString (Num j) \<Longrightarrow> i = j"
proof -
  assume "ToString (Num i) = ToString (Num j)"
  then have "parseInt10 (Some (ToString (Num i))) = parseInt10 (Some (ToString (Num j)))" by simp
  then show "i = j" by (simp add: parseInt10_ToString)
qed

section \<open>Properties of the clipboard and the key handler\<close>

lemma getAttribute_setAttribute:
  "getAttribute (setAttribute n v e) m = (if m = n then Some v else getAttribute e m)"
  by (simp add: getAttribute_def setAttribute_def update_conv')

lemma nodeName_setAttribute [simp]: "nodeName (setAttribute n v e) = nodeName e"
  by (simp add: setAttribute_def)

lemma childNodes_setAttribute [simp]: "childNodes (setAttribute n v e) = childNodes e"
  by (simp add: setAttribute_def)

lemma getAttribute_deleteNext [simp]: "getAttribute (deleteNext e) m = getAttribute e m"
  by (simp add: getAttribute_def deleteNext_def)

lemma nodeName_deleteNext [simp]: "nodeName (deleteNext e) = nodeName e"
  by (simp add: deleteNext_def)

lemma childNodes_deleteNext [simp]: "childNodes (deleteNext e) = remove_next (childNodes e)"
  by (simp add: deleteNext_def)

lemma remove_next_others:
  "filter (\<lambda>c. \<not> is_next c) (remove_next cs) = filter (\<lambda>c. \<not> is_next c) cs"
  by (induction cs) (simp_all add: is_next_def)

lemma remove_next_count:
  "length (filter is_next (remove_next cs)) = length (filter is_next cs) - 1"
  by (induction cs) (simp_all add: is_next_def)

text \<open>
  Claim C4. \<open>Blockly.copy_\<close> stores on the clipboard the block's DOM serialization with
  attribute \<open>x\<close> set to the surface x-coordinate (negated for an RTL block) and attribute
  \<open>y\<close> set to the y-coordinate, each as the string of that number, every other attribute
  and the node name as serialized; the \<open>next\<close> child is removed exactly when the drag
  mode is not \<open>DRAG_FREE\<close> (all other children stay); and the clipboard source becomes the
  block's workspace. This holds for coordinates of any value.
\<close>

theorem copy_sets_clipboard:
  "clipboardSource (copy ops b st) = Some (workspace b) \<and>
   effects (copy ops b st) = effects st \<and>
   (\<exists>x. clipboardXml (copy ops b st) = Some x \<and>
      getAttribute x ''x'' =
        Some (NumberToString ops (if RTL b then negate ops (fst (getRelativeToSurfaceXY b))
                                  else fst (getRelativeToSurfaceXY b))) \<and>
      getAttribute x ''y'' = Some (NumberToString ops (snd (getRelativeToSurfaceXY b))) \<and>
      (\<forall>n. n \<noteq> ''x'' \<and> n \<noteq> ''y'' \<longrightarrow> getAttribute x n = getAttribute (blockToDom b) n) \<and>
      nodeName x = nodeName (blockToDom b) \<and>
      childNodes x = (if dragMode st = DRAG_FREE then childNodes (blockToDom b)
                      else remove_next (childNodes (blockToDom b))) \<and>
      filter (\<lambda>c. \<not> is_next c) (childNodes x) =
        filter (\<lambda>c. \<not> is_next c) (childNodes (blockToDom b)) \<and>
      length (filter is_next (childNodes x)) =
        (if dragMode st = DRAG_FREE then length (filter is_next (childNodes (blockToDom b)))
         else length (filter is_next (childNodes (blockToDom b))) - 1))"
  by (simp add: copy_def Let_def getAttribute_setAttribute remove_next_others remove_next_count)

lemma ToString_code [simp]:
  "ToString (Num 30) = ''30''" "ToString (Num (- 30)) = ''-30''" "ToString (Num 12) = ''12''"
  by (simp_all add: ToString_def nat_digits.simps digit_char_def)

theorem copy_sets_clipboard_witness:
  "clipboardSource (copy integer_ops sample_block sample_state) = Some 1 \<and>
   (\<exists>x. clipboardXml (copy integer_ops sample_block sample_state) = Some x \<and>
      getAttribute x ''x'' = Some ''-30'' \<and> getAttribute x ''y'' = Some ''12'' \<and>
      getAttribute x ''type'' = Some ''controls_if'' \<and>
      childNodes x = [Element ''value'' [(''name'', ''IF0'')] []]) \<and>
   clipboardSource (copy decimal_ops fraction_block fraction_state) = Some 2 \<and>
   (\<exists>x. clipboardXml (copy decimal_ops fraction_block fraction_state) = Some x \<and>
      getAttribute x ''x'' = Some ''-30.5'' \<and> getAttribute x ''y'' = Some ''12.25'' \<and>
      getAttribute x ''type'' = Some ''controls_if'' \<and>
      childNodes x = childNodes sample_dom)"
proof -
  have v: "RTL sample_block" "getRelativeToSurfaceXY sample_block = (Num 30, Num 12)"
    "workspace sample_block = 1" "dragMode sample_state \<noteq> DRAG_FREE"
    "remove_next (childNodes (blockToDom sample_block)) =
       [Element ''value'' [(''name'', ''IF0'')] []]"
    "getAttribute (blockToDom sample_block) ''type'' = Some ''controls_if''"
    "negate integer_ops = js_neg" "NumberToString integer_ops = ToString"
    by (simp_all add: sample_block_def sample_state_def sample_dom_def is_next_def
        getAttribute_def integer_ops_def)
  from copy_sets_clipboard [of integer_ops sample_block sample_state]
  obtain x where x: "clipboardXml (copy integer_ops sample_block sample_state) = Some x"
    and gx: "getAttribute x ''x'' =
        Some (NumberToString integer_ops
               (if RTL sample_block
                then negate integer_ops (fst (getRelativeToSurfaceXY sample_block))
                else fst (getRelativeToSurfaceXY sample_block)))"
    and gy: "getAttribute x ''y'' =
        Some (NumberToString integer_ops (snd (getRelativeToSurfaceXY sample_block)))"
    and gn: "\<forall>n. n \<noteq> ''x'' \<and> n \<noteq> ''y'' \<longrightarrow>
               getAttribute x n = getAttribute (blockToDom sample_block) n"
    and ch: "childNodes x =
        (if dragMode sample_state = DRAG_FREE then childNodes (blockToDom sample_block)
         else remove_next (childNodes (blockToDom sample_block)))"
    and s: "clipboardSource (copy integer_ops sample_block sample_state) =
        Some (workspace sample_block)"
    by blast
  have gt: "getAttribute x ''type'' = getAttribute (blockToDom sample_block) ''type''"
    using gn by simp
  have r1: "clipboardSource (copy integer_ops sample_block sample_state) = Some 1"
    using s by (simp add: v)
  have r2: "\<exists>x. clipboardXml (copy integer_ops sample_block sample_state) = Some x \<and>
      getAttribute x ''x'' = Some ''-30'' \<and> getAttribute x ''y'' = Some ''12'' \<and>
      getAttribute x ''type'' = Some ''controls_if'' \<and>
      childNodes x = [Element ''value'' [(''name'', ''IF0'')] []]"
    using x gx gy gt ch by (simp add: v js_neg_def)
  have w: "RTL fraction_block" "getRelativeToSurfaceXY fraction_block = (''30.5'', ''12.25'')"
    "workspace fraction_block = 2" "dragMode fraction_state = DRAG_FREE"
    "blockToDom fraction_block = sample_dom"
    "getAttribute sample_dom ''type'' = Some ''controls_if''"
    "negate decimal_ops ''30.5'' = ''-30.5''" "NumberToString decimal_ops = (\<lambda>s. s)"
    by (simp_all add: fraction_block_def fraction_state_def sample_dom_def getAttribute_def
        decimal_ops_def)
  from copy_sets_clipboard [of decimal_ops fraction_block fraction_state]
  obtain y where y: "clipboardXml (copy decimal_ops fraction_block fraction_state) = Some y"
    and hx: "getAttribute y ''x'' =
        Some (NumberToString decimal_ops
               (if RTL fraction_block
                then negate decimal_ops (fst (getRelativeToSurfaceXY fraction_block))
                else fst (getRelativeToSurfaceXY fraction_block)))"
    and hy: "getAttribute y ''y'' =
        Some (NumberToString decimal_ops (snd (getRelativeToSurfaceXY fraction_block)))"
    and hn: "\<forall>n. n \<noteq> ''x'' \<and> n \<noteq> ''y'' \<longrightarrow>
               getAttribute y n = getAttribute (blockToDom fraction_block) n"
    and dh: "childNodes y =
        (if dragMode fraction_state = DRAG_FREE then childNodes (blockToDom fraction_block)
         else remove_next (childNodes (blockToDom fraction_block)))"
    and t: "clipboardSource (copy decimal_ops fraction_block fraction_state) =
        Some (workspace fraction_block)"
    by blast
  have ht: "getAttribute y ''type'' = getAttribute (blockToDom fraction_block) ''type''"
    using hn by simp
  have r3: "clipboardSource (copy decimal_ops fraction_block fraction_state) = Some 2"
    using t by (simp add: w)
  have r4: "\<exists>x. clipboardXml (copy decimal_ops fraction_block fraction_state) = Some x \<and>
      getAttribute x ''x'' = Some ''-30.5'' \<and> getAttribute x ''y'' = Some ''12.25'' \<and>
      getAttribute x ''type'' = Some ''controls_if'' \<and>
      childNodes x = childNodes sample_dom"
    using y hx hy ht dh by (simp add: w)
  show ?thesis using r1 r2 r3 r4 by blast
qed

lemma copy_sample:
  "copy integer_ops sample_block sample_state =
     sample_state\<lparr>clipboardXml :=
        Some (Element ''block'' [(''type'', ''controls_if''), (''x'', ''-30''), (''y'', ''12'')]
          [Element ''value'' [(''name'', ''IF0'')] []]),
        clipboardSource := Some 1\<rparr>"
  by (simp add: copy_def sample_block_def sample_state_def sample_dom_def Let_def deleteNext_def
      setAttribute_def js_neg_def is_next_def integer_ops_def)

lemma effects_hideChaff:
  "effects (hideChaff a st) =
     effects st @ [TooltipHide, WidgetDivHide] @
       (if \<not> a \<and> toolboxAutoClose st then [ToolboxClearSelection] else [])"
  by (simp add: hideChaff_def emit_def Let_def)

lemma hideChaff_frame:
  "hideChaff a st = st\<lparr>effects := effects (hideChaff a st)\<rparr>"
  by (simp add: hideChaff_def emit_def Let_def)

text \<open>
  Claim C3. For every block and every clipboard state, \<open>Blockly.duplicate_\<close> pastes the
  copy of the block (the element \<open>copy_\<close> would put on the clipboard) into the block's own
  workspace, and both clipboard fields are what they were before the call; nothing else
  of the state changes.
\<close>

theorem duplicate_keeps_clipboard:
  "clipboardXml (duplicate ops b st) = clipboardXml st \<and>
   clipboardSource (duplicate ops b st) = clipboardSource st \<and>
   (\<exists>x. clipboardXml (copy ops b st) = Some x \<and>
        duplicate ops b st = st\<lparr>effects := effects st @ [Paste (workspace b) x]\<rparr>)"
  by (simp add: duplicate_def copy_def paste_def emit_def Let_def)

theorem duplicate_keeps_clipboard_witness:
  "clipboardXml (duplicate integer_ops sample_block sample_state) = None \<and>
   clipboardSource (duplicate integer_ops sample_block sample_state) = None \<and>
   effects (duplicate integer_ops sample_block sample_state) =
     [Paste 1 (Element ''block'' [(''type'', ''controls_if''), (''x'', ''-30''), (''y'', ''12'')]
        [Element ''value'' [(''name'', ''IF0'')] []])]"
proof -
  have v: "clipboardXml sample_state = None" "clipboardSource sample_state = None"
    "effects sample_state = []" "workspace sample_block = 1"
    by (simp_all add: sample_state_def sample_block_def)
  from duplicate_keeps_clipboard [of integer_ops sample_block sample_state]
  obtain x where x: "clipboardXml (copy integer_ops sample_block sample_state) = Some x"
    and d: "duplicate integer_ops sample_block sample_state =
      sample_state\<lparr>effects := effects sample_state @ [Paste (workspace sample_block) x]\<rparr>"
    and c: "clipboardXml (duplicate integer_ops sample_block sample_state) = clipboardXml sample_state"
      "clipboardSource (duplicate integer_ops sample_block sample_state) = clipboardSource sample_state"
    by blast
  have "x = Element ''block'' [(''type'', ''controls_if''), (''x'', ''-30''), (''y'', ''12'')]
        [Element ''value'' [(''name'', ''IF0'')] []]"
    using x by (simp add: copy_sample)
  then show ?thesis using c by (simp add: d v)
qed

lemma delete_selected_Some:
  "selected st = Some b \<Longrightarrow>
   delete_selected st =
     st\<lparr>highlightedConnection := None,
        effects := effects st @ [SetGroup True, TooltipHide, WidgetDivHide] @
          (if toolboxAutoClose st then [ToolboxClearSelection] else []) @
          [Dispose b (dragMode st \<noteq> DRAG_FREE) True] @
          (case highlightedConnection st of None \<Rightarrow> [] | Some c \<Rightarrow> [Unhighlight c]) @
          [SetGroup False]\<rparr>"
  by (cases "highlightedConnection st")
     (simp_all add: delete_selected_def hideChaff_def emit_def Let_def)

lemma copy_frame:
  "selected (copy ops b st) = selected st" "toolboxAutoClose (copy ops b st) = toolboxAutoClose st"
  "dragMode (copy ops b st) = dragMode st" "highlightedConnection (copy ops b st) = highlightedConnection st"
  "effects (copy ops b st) = effects st" "readOnly (copy ops b st) = readOnly st"
  by (simp_all add: copy_def Let_def)

text \<open>
  Claim C1, amended. The cut key (key code 88 with Alt, Ctrl or Meta and without Shift):
  when the main workspace is not read-only and the key event does not come from a text
  input, and the selected block is deletable and movable, the block is first copied onto
  the clipboard and then disposed by the code shared with the delete key. When no block
  is selected, or the selected block is not deletable or not movable, the state (clipboard
  and recorded workspace calls included) is unchanged.
\<close>

theorem cut_key:
  assumes "keyCode e = 88" and "altKey e \<or> ctrlKey e \<or> metaKey e" and "\<not> shiftKey e"
  shows "(\<not> readOnly st \<and> \<not> isTargetInput e \<and>
            selected st = Some b \<and> isDeletable b \<and> isMovable b \<longrightarrow>
          onKeyDown ops e st = delete_selected (copy ops b st) \<and>
          clipboardXml (onKeyDown ops e st) = clipboardXml (copy ops b st) \<and>
          clipboardSource (onKeyDown ops e st) = Some (workspace b) \<and>
          effects (onKeyDown ops e st) =
            effects st @ [SetGroup True, TooltipHide, WidgetDivHide] @
            (if toolboxAutoClose st then [ToolboxClearSelection] else []) @
            [Dispose b (dragMode st \<noteq> DRAG_FREE) True] @
            (case highlightedConnection st of None \<Rightarrow> [] | Some c \<Rightarrow> [Unhighlight c]) @
            [SetGroup False]) \<and>
         ((selected st = None \<or> (\<exists>b'. selected st = Some b' \<and> \<not> (isDeletable b' \<and> isMovable b')))
            \<longrightarrow> onKeyDown ops e st = st)"
proof (intro conjI impI)
  assume h: "\<not> readOnly st \<and> \<not> isTargetInput e \<and> selected st = Some b \<and> isDeletable b \<and> isMovable b"
  have cc: "copy_or_cut ops e st = (True, copy ops b st)"
    using h assms by (simp add: copy_or_cut_def)
  have pu: "paste_undo_redo e (copy ops b st) = copy ops b st"
    using assms by (simp add: paste_undo_redo_def)
  show k: "onKeyDown ops e st = delete_selected (copy ops b st)"
    using h assms by (simp add: onKeyDown_def cc pu)
  have sel: "selected (copy ops b st) = Some b" using h by (simp add: copy_frame)
  show "clipboardXml (onKeyDown ops e st) = clipboardXml (copy ops b st)"
    by (simp add: k delete_selected_Some [OF sel])
  show "clipboardSource (onKeyDown ops e st) = Some (workspace b)"
    by (simp add: k delete_selected_Some [OF sel]) (simp add: copy_def Let_def)
  show "effects (onKeyDown ops e st) =
            effects st @ [SetGroup True, TooltipHide, WidgetDivHide] @
            (if toolboxAutoClose st then [ToolboxClearSelection] else []) @
            [Dispose b (dragMode st \<noteq> DRAG_FREE) True] @
            (case highlightedConnection st of None \<Rightarrow> [] | Some c \<Rightarrow> [Unhighlight c]) @
            [SetGroup False]"
    by (simp add: k delete_selected_Some [OF sel] copy_frame)
next
  assume h: "selected st = None \<or> (\<exists>b'. selected st = Some b' \<and> \<not> (isDeletable b' \<and> isMovable b'))"
  have cc: "copy_or_cut ops e st = (False, st)"
    using h by (auto simp: copy_or_cut_def)
  have pu: "paste_undo_redo e st = st"
    using assms by (simp add: paste_undo_redo_def)
  show "onKeyDown ops e st = st"
    using assms by (simp add: onKeyDown_def cc pu)
qed

theorem cut_key_witness:
  "onKeyDown integer_ops (key 88) sample_state = delete_selected (copy integer_ops sample_block sample_state) \<and>
   clipboardSource (onKeyDown integer_ops (key 88) sample_state) = Some 1 \<and>
   effects (onKeyDown integer_ops (key 88) sample_state) =
     [SetGroup True, TooltipHide, WidgetDivHide, ToolboxClearSelection,
      Dispose sample_block True True, Unhighlight 4, SetGroup False] \<and>
   onKeyDown integer_ops (key 88) (sample_state\<lparr>selected := None\<rparr>) = sample_state\<lparr>selected := None\<rparr>"
proof -
  have k: "keyCode (key 88) = 88" "altKey (key 88) \<or> ctrlKey (key 88) \<or> metaKey (key 88)"
    "\<not> shiftKey (key 88)"
    by (simp_all add: key_def)
  have h: "\<not> readOnly sample_state \<and> \<not> isTargetInput (key 88) \<and>
      selected sample_state = Some sample_block \<and> isDeletable sample_block \<and>
      isMovable sample_block"
    by (simp add: key_def sample_state_def sample_block_def)
  have n: "selected (sample_state\<lparr>selected := None\<rparr>) = None" by simp
  have v: "toolboxAutoClose sample_state" "dragMode sample_state \<noteq> DRAG_FREE"
    "highlightedConnection sample_state = Some 4" "effects sample_state = []"
    "workspace sample_block = 1"
    by (simp_all add: sample_state_def sample_block_def)
  have r1: "onKeyDown integer_ops (key 88) sample_state = delete_selected (copy integer_ops sample_block sample_state)"
    and r2: "clipboardSource (onKeyDown integer_ops (key 88) sample_state) = Some (workspace sample_block)"
    and r3: "effects (onKeyDown integer_ops (key 88) sample_state) =
            effects sample_state @ [SetGroup True, TooltipHide, WidgetDivHide] @
            (if toolboxAutoClose sample_state then [ToolboxClearSelection] else []) @
            [Dispose sample_block (dragMode sample_state \<noteq> DRAG_FREE) True] @
            (case highlightedConnection sample_state of None \<Rightarrow> [] | Some c \<Rightarrow> [Unhighlight c]) @
            [SetGroup False]"
    using cut_key [OF k, where st = sample_state and b = sample_block and ops = integer_ops] h by blast+
  have r4: "onKeyDown integer_ops (key 88) (sample_state\<lparr>selected := None\<rparr>) =
      sample_state\<lparr>selected := None\<rparr>"
    using cut_key [OF k, where st = "sample_state\<lparr>selected := None\<rparr>" and b = sample_block
      and ops = integer_ops] n by blast
  show ?thesis
    by (intro conjI) (rule r1, simp add: r2 v, simp add: r3 v, rule r4)
qed

text \<open>
  The claim as stated fails while a text input has the focus: the handler returns at its
  first test, the clipboard stays empty and no block is disposed.
\<close>

theorem cut_key_counterexample:
  "keyCode (key 88\<lparr>isTargetInput := True\<rparr>) = 88 \<and>
   ctrlKey (key 88\<lparr>isTargetInput := True\<rparr>) \<and>
   \<not> shiftKey (key 88\<lparr>isTargetInput := True\<rparr>) \<and>
   selected sample_state = Some sample_block \<and>
   isDeletable sample_block \<and> isMovable sample_block \<and>
   clipboardXml (onKeyDown integer_ops (key 88\<lparr>isTargetInput := True\<rparr>) sample_state) = None \<and>
   effects (onKeyDown integer_ops (key 88\<lparr>isTargetInput := True\<rparr>) sample_state) = []"
  by (simp add: onKeyDown_def key_def sample_state_def sample_block_def)

text \<open>
  Claim C2, amended. The paste key (key code 86 with Alt, Ctrl or Meta and without Shift):
  when the main workspace is not read-only and the key event does not come from a text
  input, the stored clipboard element is pasted into the clipboard source, between one
  \<open>setGroup(true)\<close> and one \<open>setGroup(false)\<close>, and nothing else changes. When the
  clipboard is empty the state is unchanged.
\<close>

theorem paste_key:
  assumes "keyCode e = 86" and "altKey e \<or> ctrlKey e \<or> metaKey e" and "\<not> shiftKey e"
  shows "(\<not> readOnly st \<and> \<not> isTargetInput e \<and>
            clipboardXml st = Some x \<and> clipboardSource st = Some w \<longrightarrow>
          onKeyDown ops e st =
            st\<lparr>effects := effects st @ [SetGroup True, Paste w x, SetGroup False]\<rparr>) \<and>
         (clipboardXml st = None \<longrightarrow> onKeyDown ops e st = st)"
proof -
  have cc: "copy_or_cut ops e st = (False, st)"
    using assms by (simp add: copy_or_cut_def split: option.split)
  have k: "\<not> readOnly st \<and> \<not> isTargetInput e \<Longrightarrow> onKeyDown ops e st = paste_clipboard st"
    using assms by (simp add: onKeyDown_def cc paste_undo_redo_def)
  have g: "readOnly st \<or> isTargetInput e \<Longrightarrow> onKeyDown ops e st = st"
    by (auto simp: onKeyDown_def)
  have p1: "clipboardXml st = Some x \<and> clipboardSource st = Some w \<Longrightarrow>
      paste_clipboard st = st\<lparr>effects := effects st @ [SetGroup True, Paste w x, SetGroup False]\<rparr>"
    by (simp add: paste_clipboard_def paste_def emit_def)
  have p2: "clipboardXml st = None \<Longrightarrow> paste_clipboard st = st"
    by (simp add: paste_clipboard_def)
  show ?thesis using k g p1 p2 by metis
qed

theorem paste_key_witness:
  "onKeyDown integer_ops (key 86) (copy integer_ops sample_block sample_state) =
     (copy integer_ops sample_block sample_state)\<lparr>effects :=
        [SetGroup True,
         Paste 1 (Element ''block'' [(''type'', ''controls_if''), (''x'', ''-30''), (''y'', ''12'')]
           [Element ''value'' [(''name'', ''IF0'')] []]),
         SetGroup False]\<rparr> \<and>
   onKeyDown integer_ops (key 86) sample_state = sample_state"
proof -
  have k: "keyCode (key 86) = 86" "altKey (key 86) \<or> ctrlKey (key 86) \<or> metaKey (key 86)"
    "\<not> shiftKey (key 86)"
    by (simp_all add: key_def)
  let ?x = "Element ''block'' [(''type'', ''controls_if''), (''x'', ''-30''), (''y'', ''12'')]
           [Element ''value'' [(''name'', ''IF0'')] []]"
  let ?st = "copy integer_ops sample_block sample_state"
  have h: "\<not> readOnly ?st \<and> \<not> isTargetInput (key 86) \<and>
      clipboardXml ?st = Some ?x \<and> clipboardSource ?st = Some 1"
    by (simp add: copy_sample) (simp add: sample_state_def key_def)
  have e: "effects ?st = []" by (simp add: copy_frame sample_state_def)
  have n: "clipboardXml sample_state = None" by (simp add: sample_state_def)
  have r1: "onKeyDown integer_ops (key 86) ?st =
      ?st\<lparr>effects := effects ?st @ [SetGroup True, Paste 1 ?x, SetGroup False]\<rparr>"
    using paste_key [OF k, where st = ?st and x = ?x and w = 1 and ops = integer_ops] h by blast
  have r2: "onKeyDown integer_ops (key 86) sample_state = sample_state"
    using paste_key [OF k, where st = sample_state and x = ?x and w = 1 and ops = integer_ops] n by blast
  show ?thesis by (intro conjI) (simp add: r1 e, rule r2)
qed

text \<open>
  The claim as stated fails while a text input has the focus: with a filled clipboard the
  paste key pastes nothing.
\<close>

theorem paste_key_counterexample:
  "keyCode (key 86\<lparr>isTargetInput := True\<rparr>) = 86 \<and>
   ctrlKey (key 86\<lparr>isTargetInput := True\<rparr>) \<and>
   \<not> shiftKey (key 86\<lparr>isTargetInput := True\<rparr>) \<and>
   clipboardXml (copy integer_ops sample_block sample_state) \<noteq> None \<and>
   clipboardSource (copy integer_ops sample_block sample_state) = Some 1 \<and>
   effects (onKeyDown integer_ops (key 86\<lparr>isTargetInput := True\<rparr>) (copy integer_ops sample_block sample_state)) = []"
  by (simp add: onKeyDown_def key_def copy_sample) (simp add: sample_state_def)

text \<open>
  Claim C5. The delete keys (key codes 8 and 46). A block is disposed only when one is
  selected and it is deletable: then (on a workspace that is not read-only, the event not
  coming from a text input) the handler calls \<open>preventDefault\<close> and runs the code shared
  with the cut key, which disposes the selected block between one \<open>setGroup(true)\<close> and
  one \<open>setGroup(false)\<close>, with the heal flag true exactly when the drag mode is not
  \<open>DRAG_FREE\<close>; the highlighted connection, if any, is unhighlighted after the disposal and
  the field is \<open>null\<close> afterwards. In every other case no block is disposed.
\<close>

theorem delete_key:
  assumes "keyCode e = 8 \<or> keyCode e = 46"
  shows "(\<not> readOnly st \<and> \<not> isTargetInput e \<and> selected st = Some b \<and> isDeletable b \<longrightarrow>
          onKeyDown ops e st = delete_selected (emit PreventDefault st) \<and>
          effects (onKeyDown ops e st) =
            effects st @ [PreventDefault, SetGroup True, TooltipHide, WidgetDivHide] @
            (if toolboxAutoClose st then [ToolboxClearSelection] else []) @
            [Dispose b (dragMode st \<noteq> DRAG_FREE) True] @
            (case highlightedConnection st of None \<Rightarrow> [] | Some c \<Rightarrow> [Unhighlight c]) @
            [SetGroup False] \<and>
          highlightedConnection (onKeyDown ops e st) = None) \<and>
         ((selected st = None \<or> (\<exists>b'. selected st = Some b' \<and> \<not> isDeletable b') \<or>
           readOnly st \<or> isTargetInput e) \<longrightarrow>
          onKeyDown ops e st =
            (if readOnly st \<or> isTargetInput e then st else emit PreventDefault st) \<and>
          (\<forall>d h a. Dispose d h a \<in> set (effects (onKeyDown ops e st)) \<longrightarrow>
                   Dispose d h a \<in> set (effects st)))"
proof (intro conjI impI)
  assume h: "\<not> readOnly st \<and> \<not> isTargetInput e \<and> selected st = Some b \<and> isDeletable b"
  show k: "onKeyDown ops e st = delete_selected (emit PreventDefault st)"
    using h assms by (auto simp: onKeyDown_def emit_def Let_def)
  have sel: "selected (emit PreventDefault st) = Some b" using h by (simp add: emit_def)
  show "effects (onKeyDown ops e st) =
            effects st @ [PreventDefault, SetGroup True, TooltipHide, WidgetDivHide] @
            (if toolboxAutoClose st then [ToolboxClearSelection] else []) @
            [Dispose b (dragMode st \<noteq> DRAG_FREE) True] @
            (case highlightedConnection st of None \<Rightarrow> [] | Some c \<Rightarrow> [Unhighlight c]) @
            [SetGroup False]"
    by (simp add: k delete_selected_Some [OF sel]) (simp add: emit_def)
  show "highlightedConnection (onKeyDown ops e st) = None"
    by (simp add: k delete_selected_Some [OF sel])
next
  assume h: "selected st = None \<or> (\<exists>b'. selected st = Some b' \<and> \<not> isDeletable b') \<or>
           readOnly st \<or> isTargetInput e"
  show k: "onKeyDown ops e st = (if readOnly st \<or> isTargetInput e then st else emit PreventDefault st)"
    using h assms by (auto simp: onKeyDown_def emit_def Let_def)
  show "\<forall>d h a. Dispose d h a \<in> set (effects (onKeyDown ops e st)) \<longrightarrow>
                   Dispose d h a \<in> set (effects st)"
    by (auto simp: k emit_def)
qed

theorem delete_key_witness:
  "effects (onKeyDown integer_ops (key 46) sample_state) =
     [PreventDefault, SetGroup True, TooltipHide, WidgetDivHide, ToolboxClearSelection,
      Dispose sample_block True True, Unhighlight 4, SetGroup False] \<and>
   highlightedConnection (onKeyDown integer_ops (key 46) sample_state) = None \<and>
   onKeyDown integer_ops (key 46) (sample_state\<lparr>selected := None\<rparr>) =
     emit PreventDefault (sample_state\<lparr>selected := None\<rparr>)"
proof -
  have k: "keyCode (key 46) = 8 \<or> keyCode (key 46) = 46" by (simp add: key_def)
  have h: "\<not> readOnly sample_state \<and> \<not> isTargetInput (key 46) \<and>
      selected sample_state = Some sample_block \<and> isDeletable sample_block"
    by (simp add: key_def sample_state_def sample_block_def)
  let ?st = "sample_state\<lparr>selected := None\<rparr>"
  have n: "selected ?st = None" "\<not> (readOnly ?st \<or> isTargetInput (key 46))"
    by (simp_all add: sample_state_def key_def)
  have v: "toolboxAutoClose sample_state" "dragMode sample_state \<noteq> DRAG_FREE"
    "highlightedConnection sample_state = Some 4" "effects sample_state = []"
    by (simp_all add: sample_state_def)
  have r1: "effects (onKeyDown integer_ops (key 46) sample_state) =
            effects sample_state @ [PreventDefault, SetGroup True, TooltipHide, WidgetDivHide] @
            (if toolboxAutoClose sample_state then [ToolboxClearSelection] else []) @
            [Dispose sample_block (dragMode sample_state \<noteq> DRAG_FREE) True] @
            (case highlightedConnection sample_state of None \<Rightarrow> [] | Some c \<Rightarrow> [Unhighlight c]) @
            [SetGroup False]"
    and r2: "highlightedConnection (onKeyDown integer_ops (key 46) sample_state) = None"
    using delete_key [OF k, where st = sample_state and b = sample_block and ops = integer_ops] h by blast+
  have r3: "onKeyDown integer_ops (key 46) ?st =
      (if readOnly ?st \<or> isTargetInput (key 46) then ?st else emit PreventDefault ?st)"
    using delete_key [OF k, where st = ?st and b = sample_block and ops = integer_ops] n(1) by blast
  show ?thesis
    by (intro conjI) (simp add: r1 v, rule r2, simp only: r3 n(2) if_False)
qed

section \<open>Properties of the JSON block registry\<close>

lemma define_from_fold:
  "define_from i jsonArray st =
     fold (\<lambda>(j, d). define_elem j d) (enumerate i (processed jsonArray)) st"
  by (induction i jsonArray st rule: define_from.induct) (simp_all add: processed_def)

lemma define_from_stops: "define_from i (pre @ None # post) st = define_from i pre st"
  by (induction i pre st rule: define_from.induct) simp_all

lemma define_elem_skip:
  "elem_type d = Missing \<or> elem_type d = TypeString [] \<Longrightarrow>
   define_elem i d st = st\<lparr>console := console st @ [missing_type_warning i]\<rparr>"
  by (auto simp: define_elem_def warn_def Let_def)

lemma warn_fields [simp]:
  "Blocks (warn m st) = Blocks st" "inherited (warn m st) = inherited st"
  "prototype (warn m st) = prototype st" "console (warn m st) = console st @ [m]"
  by (simp_all add: warn_def)

lemma get_member_warn [simp]: "get_member (warn m st) k = get_member st k"
  by (auto simp: get_member_def split: option.split)

lemma get_member_set_member: "get_member (set_member k d st) k = Some (Definition d)"
proof (cases "k = ''__proto__'' \<and> Blocks st k = None \<and> inherited st k \<noteq> None")
  case True
  then have "set_member k d st = st\<lparr>prototype := Some d\<rparr>"
    by (auto simp: set_member_def)
  with True show ?thesis by (auto simp: get_member_def)
next
  case False
  then have "set_member k d st = st\<lparr>Blocks := (Blocks st)(k \<mapsto> Definition d)\<rparr>"
    unfolding set_member_def by auto
  then show ?thesis by (simp add: get_member_def)
qed

lemma define_elem_typed:
  "elem_type d \<noteq> Missing \<and> elem_type d \<noteq> TypeString [] \<Longrightarrow>
   define_elem i d st =
     set_member (property_key (elem_type d)) \<lparr>init = JsonInit d\<rparr>
       (if is_truthy (get_member st (property_key (elem_type d)))
        then warn (overwrite_warning i (property_key (elem_type d))) st else st)"
  by (simp add: define_elem_def jsonInitFactory_def Let_def)

lemma console_set_member [simp]: "console (set_member k d st) = console st"
  by (simp add: set_member_def)

lemma console_define_elem:
  "elem_type d \<noteq> Missing \<and> elem_type d \<noteq> TypeString [] \<Longrightarrow>
   console (define_elem i d st) =
     console st @
     (if is_truthy (get_member st (property_key (elem_type d)))
      then [overwrite_warning i (property_key (elem_type d))] else [])"
  by (simp add: define_elem_typed)

lemma get_member_define_elem:
  "elem_type d \<noteq> Missing \<and> elem_type d \<noteq> TypeString [] \<Longrightarrow>
   get_member (define_elem i d st) (property_key (elem_type d)) =
     Some (Definition \<lparr>init = JsonInit d\<rparr>)"
  by (simp add: define_elem_typed get_member_set_member)

lemma define_elem_own:
  "elem_type d \<noteq> Missing \<and> elem_type d \<noteq> TypeString [] \<Longrightarrow>
   property_key (elem_type d) \<noteq> ''__proto__'' \<Longrightarrow>
   define_elem i d st =
     st\<lparr>Blocks := (Blocks st)(property_key (elem_type d) \<mapsto> Definition \<lparr>init = JsonInit d\<rparr>),
        console := console (define_elem i d st)\<rparr>"
  by (simp add: define_elem_typed set_member_def warn_def)

lemma Blocks_define_elem:
  "property_key (elem_type d) \<noteq> ''__proto__'' \<Longrightarrow>
   Blocks (define_elem i d st) = register d (Blocks st)"
proof (cases "elem_type d \<noteq> Missing \<and> elem_type d \<noteq> TypeString []")
  case True
  moreover assume "property_key (elem_type d) \<noteq> ''__proto__''"
  ultimately show ?thesis
    by (simp add: define_elem_typed set_member_def register_def has_type_def)
next
  case False
  then show ?thesis
    using define_elem_skip [of d i st] by (auto simp: register_def has_type_def)
qed

lemma Blocks_fold_define_elem:
  "list_all (\<lambda>d. property_key (elem_type d) \<noteq> ''__proto__'') ds \<Longrightarrow>
   Blocks (fold (\<lambda>(j, d). define_elem j d) (enumerate i ds) st) = fold register ds (Blocks st)"
  by (induction ds arbitrary: i st) (simp_all add: Blocks_define_elem)

text \<open>
  Claim C10. \<open>Blockly.defineBlocksWithJsonArray\<close> processes the elements in order, each
  with its index, and stops at the first falsy element (\<open>null\<close> or \<open>undefined\<close>): what
  follows it has no effect. A processed definition whose \<open>type\<close> is \<open>null\<close> or the empty
  string changes nothing but the console, which receives one warning. Any other
  definition is registered under its type, whatever was registered there: afterwards
  \<open>Blockly.Blocks[type]\<close> is the new definition. (The code warns of an overwrite whenever
  \<open>Blockly.Blocks[type]\<close> was truthy before, which an inherited member such as
  \<open>toString\<close> is too.) For a type other than \<open>__proto__\<close> the registration is an own
  property of \<open>Blockly.Blocks\<close> and nothing else changes.
\<close>

theorem defineBlocksWithJsonArray_spec:
  "defineBlocksWithJsonArray (pre @ None # post) st = defineBlocksWithJsonArray pre st \<and>
   defineBlocksWithJsonArray jsonArray st =
     fold (\<lambda>(i, d). define_elem i d) (enumerate 0 (processed jsonArray)) st \<and>
   (list_all (\<lambda>d. property_key (elem_type d) \<noteq> ''__proto__'') (processed jsonArray) \<longrightarrow>
      Blocks (defineBlocksWithJsonArray jsonArray st) =
        fold register (processed jsonArray) (Blocks st)) \<and>
   (elem_type d = Missing \<or> elem_type d = TypeString [] \<longrightarrow>
      define_elem i d st = st\<lparr>console := console st @ [missing_type_warning i]\<rparr>) \<and>
   (elem_type d \<noteq> Missing \<and> elem_type d \<noteq> TypeString [] \<longrightarrow>
      get_member (define_elem i d st) (property_key (elem_type d)) =
        Some (Definition \<lparr>init = JsonInit d\<rparr>) \<and>
      console (define_elem i d st) =
        console st @
        (if is_truthy (get_member st (property_key (elem_type d)))
         then [overwrite_warning i (property_key (elem_type d))] else []) \<and>
      (property_key (elem_type d) \<noteq> ''__proto__'' \<longrightarrow>
         define_elem i d st =
           st\<lparr>Blocks := (Blocks st)(property_key (elem_type d) \<mapsto>
                             Definition \<lparr>init = JsonInit d\<rparr>),
              console := console (define_elem i d st)\<rparr>))"
proof (intro conjI impI)
  show "defineBlocksWithJsonArray (pre @ None # post) st = defineBlocksWithJsonArray pre st"
    by (simp add: defineBlocksWithJsonArray_def define_from_stops)
  show "defineBlocksWithJsonArray jsonArray st =
     fold (\<lambda>(i, d). define_elem i d) (enumerate 0 (processed jsonArray)) st"
    by (simp add: defineBlocksWithJsonArray_def define_from_fold)
next
  assume "list_all (\<lambda>d. property_key (elem_type d) \<noteq> ''__proto__'') (processed jsonArray)"
  then show "Blocks (defineBlocksWithJsonArray jsonArray st) =
     fold register (processed jsonArray) (Blocks st)"
    by (simp add: defineBlocksWithJsonArray_def define_from_fold Blocks_fold_define_elem)
next
  assume "elem_type d = Missing \<or> elem_type d = TypeString []"
  then show "define_elem i d st = st\<lparr>console := console st @ [missing_type_warning i]\<rparr>"
    by (rule define_elem_skip)
next
  assume h: "elem_type d \<noteq> Missing \<and> elem_type d \<noteq> TypeString []"
  show "get_member (define_elem i d st) (property_key (elem_type d)) =
        Some (Definition \<lparr>init = JsonInit d\<rparr>)"
    using h by (rule get_member_define_elem)
  show "console (define_elem i d st) =
        console st @
        (if is_truthy (get_member st (property_key (elem_type d)))
         then [overwrite_warning i (property_key (elem_type d))] else [])"
    using h by (rule console_define_elem)
  assume "property_key (elem_type d) \<noteq> ''__proto__''"
  with h show "define_elem i d st =
           st\<lparr>Blocks := (Blocks st)(property_key (elem_type d) \<mapsto>
                             Definition \<lparr>init = JsonInit d\<rparr>),
              console := console (define_elem i d st)\<rparr>"
    by (rule define_elem_own)
qed

lemma ToString_small:
  "ToString (Num 0) = ''0''" "ToString (Num 1) = ''1''" "ToString (Num 2) = ''2''"
  "ToString (Num 3) = ''3''"
  by (simp_all add: ToString_def nat_digits.simps digit_char_def)

theorem defineBlocksWithJsonArray_spec_witness:
  "Blocks (defineBlocksWithJsonArray sample_defs empty_registry) ''a'' =
     Some (Definition \<lparr>init = JsonInit \<lparr>elem_type = TypeString ''a'', elem_body = ''4''\<rparr>\<rparr>) \<and>
   Blocks (defineBlocksWithJsonArray sample_defs empty_registry) ''b'' = None \<and>
   defineBlocksWithJsonArray sample_defs empty_registry =
     defineBlocksWithJsonArray (take 4 sample_defs) empty_registry \<and>
   define_elem 2 \<lparr>elem_type = Missing, elem_body = ''2''\<rparr> empty_registry =
     empty_registry\<lparr>console :=
       [''Block definition #2 in JSON array is missing a type attribute. Skipping.'']\<rparr> \<and>
   console (define_elem 3 \<lparr>elem_type = TypeString ''a'', elem_body = ''4''\<rparr>
      (define_elem 0 \<lparr>elem_type = TypeString ''a'', elem_body = ''1''\<rparr> empty_registry)) =
     [''Block definition #3 in JSON array overwrites prior definition of \"a\".''] \<and>
   console (define_elem 2 \<lparr>elem_type = TypeString ''toString'', elem_body = ''6''\<rparr>
      empty_registry) =
     [''Block definition #2 in JSON array overwrites prior definition of \"toString\".''] \<and>
   get_member (define_elem 2 \<lparr>elem_type = TypeString ''toString'', elem_body = ''6''\<rparr>
      empty_registry) ''toString'' =
     Some (Definition \<lparr>init = JsonInit \<lparr>elem_type = TypeString ''toString'', elem_body = ''6''\<rparr>\<rparr>) \<and>
   Blocks (define_elem 2 \<lparr>elem_type = TypeString ''toString'', elem_body = ''6''\<rparr>
      empty_registry) ''loops'' = Some (Other True) \<and>
   inherited (define_elem 2 \<lparr>elem_type = TypeString ''toString'', elem_body = ''6''\<rparr>
      empty_registry) = inherited empty_registry"
proof -
  let ?d1 = "\<lparr>elem_type = TypeString ''a'', elem_body = ''1''\<rparr>"
  let ?d2 = "\<lparr>elem_type = Missing, elem_body = ''2''\<rparr>"
  let ?d3 = "\<lparr>elem_type = TypeString [], elem_body = ''3''\<rparr>"
  let ?d4 = "\<lparr>elem_type = TypeString ''a'', elem_body = ''4''\<rparr>"
  let ?d6 = "\<lparr>elem_type = TypeString ''toString'', elem_body = ''6''\<rparr>"
  let ?st1 = "define_elem 0 ?d1 empty_registry"
  have p: "processed sample_defs = [?d1, ?d2, ?d3, ?d4]"
    by (simp add: processed_def sample_defs_def)
  have np: "list_all (\<lambda>d. property_key (elem_type d) \<noteq> ''__proto__'') (processed sample_defs)"
    by (simp add: p property_key_def)
  have v: "Blocks empty_registry = [''loops'' \<mapsto> Other True]" "console empty_registry = []"
    by (simp_all add: empty_registry_def)
  have sp: "sample_defs = take 4 sample_defs @ None # drop 5 sample_defs"
    by (simp add: sample_defs_def)
  note t2 = defineBlocksWithJsonArray_spec
    [of "take 4 sample_defs" "drop 5 sample_defs" empty_registry sample_defs ?d2 2]
  note t4 = defineBlocksWithJsonArray_spec
    [of "take 4 sample_defs" "drop 5 sample_defs" ?st1 sample_defs ?d4 3]
  note t6 = defineBlocksWithJsonArray_spec
    [of "take 4 sample_defs" "drop 5 sample_defs" empty_registry sample_defs ?d6 2]
  have b: "Blocks (defineBlocksWithJsonArray sample_defs empty_registry) =
     fold register (processed sample_defs) (Blocks empty_registry)"
    using t2 np by blast
  have s: "defineBlocksWithJsonArray sample_defs empty_registry =
     defineBlocksWithJsonArray (take 4 sample_defs) empty_registry"
    using t2 sp by metis
  have m: "define_elem 2 ?d2 empty_registry =
     empty_registry\<lparr>console := console empty_registry @ [missing_type_warning 2]\<rparr>"
    using t2 by simp
  have h4: "elem_type ?d4 \<noteq> Missing \<and> elem_type ?d4 \<noteq> TypeString []" by simp
  have o: "console (define_elem 3 ?d4 ?st1) =
        console ?st1 @
        (if is_truthy (get_member ?st1 (property_key (elem_type ?d4)))
         then [overwrite_warning 3 (property_key (elem_type ?d4))] else [])"
    using t4 h4 by blast
  have st1: "is_truthy (get_member ?st1 ''a'')" "console ?st1 = []"
    by (simp_all add: define_elem_def v Let_def property_key_def set_member_def get_member_def
        is_truthy_def warn_def empty_registry_def)
  have h6: "elem_type ?d6 \<noteq> Missing \<and> elem_type ?d6 \<noteq> TypeString []" by simp
  have o6: "console (define_elem 2 ?d6 empty_registry) =
        console empty_registry @
        (if is_truthy (get_member empty_registry (property_key (elem_type ?d6)))
         then [overwrite_warning 2 (property_key (elem_type ?d6))] else [])"
    and g6: "get_member (define_elem 2 ?d6 empty_registry) (property_key (elem_type ?d6)) =
        Some (Definition \<lparr>init = JsonInit ?d6\<rparr>)"
    using t6 h6 by blast+
  have ts: "is_truthy (get_member empty_registry ''toString'')"
    by (simp add: get_member_def is_truthy_def empty_registry_def)
  have r1: "Blocks (defineBlocksWithJsonArray sample_defs empty_registry) ''a'' =
     Some (Definition \<lparr>init = JsonInit ?d4\<rparr>)"
    by (simp add: b p register_def has_type_def property_key_def v)
  have r2: "Blocks (defineBlocksWithJsonArray sample_defs empty_registry) ''b'' = None"
    by (simp add: b p register_def has_type_def property_key_def v)
  have r4: "define_elem 2 ?d2 empty_registry =
     empty_registry\<lparr>console :=
       [''Block definition #2 in JSON array is missing a type attribute. Skipping.'']\<rparr>"
    by (simp add: m v missing_type_warning_def ToString_small)
  have r5: "console (define_elem 3 ?d4 ?st1) =
     [''Block definition #3 in JSON array overwrites prior definition of \"a\".'']"
    using st1 by (simp add: o property_key_def overwrite_warning_def ToString_small)
  have r6: "console (define_elem 2 ?d6 empty_registry) =
     [''Block definition #2 in JSON array overwrites prior definition of \"toString\".'']"
    using ts by (simp add: o6 v(2) property_key_def overwrite_warning_def ToString_small)
  have r7: "get_member (define_elem 2 ?d6 empty_registry) ''toString'' =
     Some (Definition \<lparr>init = JsonInit ?d6\<rparr>)"
    using g6 by (simp add: property_key_def)
  have k6: "property_key (elem_type ?d6) \<noteq> ''__proto__''" by (simp add: property_key_def)
  have w6: "define_elem 2 ?d6 empty_registry =
      empty_registry\<lparr>Blocks := (Blocks empty_registry)(property_key (elem_type ?d6) \<mapsto>
                             Definition \<lparr>init = JsonInit ?d6\<rparr>),
              console := console (define_elem 2 ?d6 empty_registry)\<rparr>"
    using t6 h6 k6 by blast
  have r8: "Blocks (define_elem 2 ?d6 empty_registry) ''loops'' = Some (Other True)"
    by (subst w6) (simp add: v property_key_def)
  have r9: "inherited (define_elem 2 ?d6 empty_registry) = inherited empty_registry"
    by (subst w6) simp
  show ?thesis using r1 r2 s r4 r5 r6 r7 r8 r9 by blast
qed

section \<open>Properties of the event binding\<close>

lemma checked_events_append:
  "checked_events (xs @ ys) = checked_events xs @ checked_events ys"
  by (induction xs rule: checked_events.induct) simp_all

lemma invoked_events_append:
  "invoked_events (xs @ ys) = invoked_events xs @ invoked_events ys"
  by (induction xs rule: invoked_events.induct) simp_all

lemma call_func_eq: "call_func thisObject func ev w = func thisObject ev w"
  by (cases thisObject) (simp_all add: call_func_def)

lemma wrap_loop_no_capture:
  "calls (wrap_loop api thisObject func False events ls) =
     calls ls @ map (\<lambda>ev. Invoked (setClientFromTouch api ev)) events \<and>
   world (wrap_loop api thisObject func False events ls) =
     fold (\<lambda>ev. func thisObject (setClientFromTouch api ev)) events (world ls) \<and>
   handled (wrap_loop api thisObject func False events ls) = (handled ls \<or> events \<noteq> [])"
  by (induction events arbitrary: ls) (simp_all add: Let_def call_func_eq)

lemma wrap_loop_capture:
  "\<exists>new. calls (wrap_loop api thisObject func True events ls) = calls ls @ new \<and>
     map fst (checked_events new) = events \<and>
     invoked_events new =
       map (setClientFromTouch api) (map fst (filter snd (checked_events new))) \<and>
     replay api thisObject func new (world ls) =
       Some (world (wrap_loop api thisObject func True events ls)) \<and>
     handled (wrap_loop api thisObject func True events ls) =
       (handled ls \<or> invoked_events new \<noteq> [])"
proof (induction events arbitrary: ls)
  case Nil
  show ?case by simp
next
  case (Cons ev events)
  obtain ok w where c: "shouldHandleEvent api ev (world ls) = (ok, w)"
    by (cases "shouldHandleEvent api ev (world ls)")
  let ?ls1 = "ls\<lparr>world := w, calls := calls ls @ [Checked ev ok]\<rparr>"
  show ?case
  proof (cases ok)
    case False
    let ?r = "wrap_loop api thisObject func True events ?ls1"
    from Cons.IH [of ?ls1] obtain new where
      n: "calls ?r = calls ?ls1 @ new"
        "map fst (checked_events new) = events"
        "invoked_events new =
           map (setClientFromTouch api) (map fst (filter snd (checked_events new)))"
        "replay api thisObject func new (world ?ls1) = Some (world ?r)"
        "handled ?r = (handled ?ls1 \<or> invoked_events new \<noteq> [])"
      by blast
    have e: "wrap_loop api thisObject func True (ev # events) ls = ?r"
      using c False by simp
    show ?thesis
      unfolding e using n c False
      by (intro exI [of _ "Checked ev ok # new"]) simp
  next
    case True
    let ?ev1 = "setClientFromTouch api ev"
    let ?w1 = "call_func thisObject func ?ev1 w"
    let ?ls2 = "?ls1\<lparr>handled := True, world := ?w1, calls := calls ?ls1 @ [Invoked ?ev1]\<rparr>"
    let ?r = "wrap_loop api thisObject func True events ?ls2"
    from Cons.IH [of ?ls2] obtain new where
      n: "calls ?r = calls ?ls2 @ new"
        "map fst (checked_events new) = events"
        "invoked_events new =
           map (setClientFromTouch api) (map fst (filter snd (checked_events new)))"
        "replay api thisObject func new (world ?ls2) = Some (world ?r)"
        "handled ?r = (handled ?ls2 \<or> invoked_events new \<noteq> [])"
      by blast
    have e: "wrap_loop api thisObject func True (ev # events) ls = ?r"
      using c True by (simp add: Let_def)
    show ?thesis
      unfolding e using n c True
      by (intro exI [of _ "Checked ev ok # Invoked ?ev1 # new"]) (simp add: call_func_eq)
  qed
qed

lemma wrap_loop_fixed_check:
  assumes "\<forall>ev w. fst (shouldHandleEvent api ev w) = p ev"
  shows "invoked_events (calls (wrap_loop api thisObject func True events ls)) =
      invoked_events (calls ls) @ map (setClientFromTouch api) (filter p events) \<and>
    handled (wrap_loop api thisObject func True events ls) =
      (handled ls \<or> filter p events \<noteq> [])"
proof (induction events arbitrary: ls)
  case Nil
  show ?case by simp
next
  case (Cons ev events)
  obtain ok w where c: "shouldHandleEvent api ev (world ls) = (ok, w)"
    by (cases "shouldHandleEvent api ev (world ls)")
  have ok: "ok = p ev" using assms c by (metis fst_conv)
  show ?case
    using c ok by (simp add: Let_def Cons.IH invoked_events_append)
qed

lemma wrap_loop_pure_check:
  assumes "\<forall>ev w. shouldHandleEvent api ev w = (p ev, w)"
  shows "world (wrap_loop api thisObject func True events ls) =
      fold (\<lambda>ev. func thisObject (setClientFromTouch api ev)) (filter p events) (world ls)"
  by (induction events arbitrary: ls) (simp_all add: assms Let_def call_func_eq)

lemma touchWrapFunc_calls:
  "checked_events (calls (touchWrapFunc api thisObject func noCapture e ls)) =
     checked_events (calls (wrapFunc api thisObject func noCapture e ls)) \<and>
   invoked_events (calls (touchWrapFunc api thisObject func noCapture e ls)) =
     invoked_events (calls (wrapFunc api thisObject func noCapture e ls)) \<and>
   world (touchWrapFunc api thisObject func noCapture e ls) =
     world (wrapFunc api thisObject func noCapture e ls) \<and>
   calls (touchWrapFunc api thisObject func noCapture e ls) =
     calls (wrapFunc api thisObject func noCapture e ls) @
     (if handled (wrapFunc api thisObject func noCapture e ls) then [Prevented] else [])"
  by (simp add: touchWrapFunc_def Let_def checked_events_append invoked_events_append)

text \<open>
  Claim C8. The listener that \<open>Blockly.bindEventWithChecks_\<close> binds splits the incoming
  event into one event per changed touch point (a mouse event gives one event). With
  \<open>opt_noCaptureIdentifier\<close> no check is made and the bound function is invoked for every
  event of the split, in order: the state of the page is the result of applying it to
  each. Without it every event of the split is checked once, in order, with
  \<open>Blockly.Touch.shouldHandleEvent\<close>, and the bound function is invoked on exactly those
  that passed, each after \<open>setClientFromTouch\<close>: the recorded checks have the results
  that \<open>shouldHandleEvent\<close> gives, and the state of the page is the result of these
  checks and invocations. For a check that depends on the event only and leaves the
  state alone, the bound function has been applied to the events of the split that
  satisfy it, and to no other. The variable \<open>handled\<close> becomes true when the bound
  function is invoked. The listener bound to the touch event names makes the same checks
  and the same invocations, and then calls \<open>preventDefault\<close> iff \<open>handled\<close> is true.
\<close>

theorem wrapFunc_checks:
  "length (splitEventByTouches e) =
     (case changedTouches e of None \<Rightarrow> 1 | Some ts \<Rightarrow> length ts) \<and>
   calls (wrapFunc api thisObject func True e ls) =
     calls ls @ map (\<lambda>ev. Invoked (setClientFromTouch api ev)) (splitEventByTouches e) \<and>
   world (wrapFunc api thisObject func True e ls) =
     fold (\<lambda>ev. func thisObject (setClientFromTouch api ev)) (splitEventByTouches e)
       (world ls) \<and>
   handled (wrapFunc api thisObject func True e ls) =
     (handled ls \<or> splitEventByTouches e \<noteq> []) \<and>
   (\<exists>new. calls (wrapFunc api thisObject func False e ls) = calls ls @ new \<and>
      map fst (checked_events new) = splitEventByTouches e \<and>
      invoked_events new =
        map (setClientFromTouch api) (map fst (filter snd (checked_events new))) \<and>
      replay api thisObject func new (world ls) =
        Some (world (wrapFunc api thisObject func False e ls)) \<and>
      handled (wrapFunc api thisObject func False e ls) =
        (handled ls \<or> invoked_events new \<noteq> [])) \<and>
   ((\<forall>ev w. fst (shouldHandleEvent api ev w) = p ev) \<longrightarrow>
      invoked_events (calls (wrapFunc api thisObject func False e ls)) =
        invoked_events (calls ls) @
        map (setClientFromTouch api) (filter p (splitEventByTouches e)) \<and>
      handled (wrapFunc api thisObject func False e ls) =
        (handled ls \<or> filter p (splitEventByTouches e) \<noteq> [])) \<and>
   ((\<forall>ev w. shouldHandleEvent api ev w = (p ev, w)) \<longrightarrow>
      world (wrapFunc api thisObject func False e ls) =
        fold (\<lambda>ev. func thisObject (setClientFromTouch api ev))
          (filter p (splitEventByTouches e)) (world ls)) \<and>
   checked_events (calls (touchWrapFunc api thisObject func noCapture e ls)) =
     checked_events (calls (wrapFunc api thisObject func noCapture e ls)) \<and>
   invoked_events (calls (touchWrapFunc api thisObject func noCapture e ls)) =
     invoked_events (calls (wrapFunc api thisObject func noCapture e ls)) \<and>
   world (touchWrapFunc api thisObject func noCapture e ls) =
     world (wrapFunc api thisObject func noCapture e ls) \<and>
   calls (touchWrapFunc api thisObject func noCapture e ls) =
     calls (wrapFunc api thisObject func noCapture e ls) @
     (if handled (wrapFunc api thisObject func noCapture e ls) then [Prevented] else [])"
proof (intro conjI impI)
  show "length (splitEventByTouches e) =
     (case changedTouches e of None \<Rightarrow> 1 | Some ts \<Rightarrow> length ts)"
    by (simp add: splitEventByTouches_def split: option.split)
  show "calls (wrapFunc api thisObject func True e ls) =
     calls ls @ map (\<lambda>ev. Invoked (setClientFromTouch api ev)) (splitEventByTouches e)"
    by (simp add: wrapFunc_def wrap_loop_no_capture)
  show "world (wrapFunc api thisObject func True e ls) =
     fold (\<lambda>ev. func thisObject (setClientFromTouch api ev)) (splitEventByTouches e)
       (world ls)"
    by (simp add: wrapFunc_def wrap_loop_no_capture)
  show "handled (wrapFunc api thisObject func True e ls) =
     (handled ls \<or> splitEventByTouches e \<noteq> [])"
    by (simp add: wrapFunc_def wrap_loop_no_capture)
  show "\<exists>new. calls (wrapFunc api thisObject func False e ls) = calls ls @ new \<and>
      map fst (checked_events new) = splitEventByTouches e \<and>
      invoked_events new =
        map (setClientFromTouch api) (map fst (filter snd (checked_events new))) \<and>
      replay api thisObject func new (world ls) =
        Some (world (wrapFunc api thisObject func False e ls)) \<and>
      handled (wrapFunc api thisObject func False e ls) =
        (handled ls \<or> invoked_events new \<noteq> [])"
    using wrap_loop_capture [of api thisObject func "splitEventByTouches e" ls]
    by (simp add: wrapFunc_def)
next
  assume h: "\<forall>ev w. fst (shouldHandleEvent api ev w) = p ev"
  show "invoked_events (calls (wrapFunc api thisObject func False e ls)) =
        invoked_events (calls ls) @
        map (setClientFromTouch api) (filter p (splitEventByTouches e))"
    by (simp add: wrapFunc_def wrap_loop_fixed_check [OF h])
  show "handled (wrapFunc api thisObject func False e ls) =
        (handled ls \<or> filter p (splitEventByTouches e) \<noteq> [])"
    by (simp add: wrapFunc_def wrap_loop_fixed_check [OF h])
next
  assume "\<forall>ev w. shouldHandleEvent api ev w = (p ev, w)"
  then show "world (wrapFunc api thisObject func False e ls) =
        fold (\<lambda>ev. func thisObject (setClientFromTouch api ev))
          (filter p (splitEventByTouches e)) (world ls)"
    by (simp add: wrapFunc_def wrap_loop_pure_check)
next
  show "checked_events (calls (touchWrapFunc api thisObject func noCapture e ls)) =
     checked_events (calls (wrapFunc api thisObject func noCapture e ls))"
    using touchWrapFunc_calls [of api thisObject func noCapture e ls] by blast
  show "invoked_events (calls (touchWrapFunc api thisObject func noCapture e ls)) =
     invoked_events (calls (wrapFunc api thisObject func noCapture e ls))"
    using touchWrapFunc_calls [of api thisObject func noCapture e ls] by blast
  show "world (touchWrapFunc api thisObject func noCapture e ls) =
     world (wrapFunc api thisObject func noCapture e ls)"
    using touchWrapFunc_calls [of api thisObject func noCapture e ls] by blast
  show "calls (touchWrapFunc api thisObject func noCapture e ls) =
     calls (wrapFunc api thisObject func noCapture e ls) @
     (if handled (wrapFunc api thisObject func noCapture e ls) then [Prevented] else [])"
    using touchWrapFunc_calls [of api thisObject func noCapture e ls] by blast
qed

text \<open>With the sample interface, which tracks the first touch it sees, the second touch
  of the sample event is checked and not handled.\<close>

lemma wrapFunc_sample_calls:
  "calls (wrapFunc sample_api None sample_func False sample_event sample_listener) =
     [Checked (sample_event\<lparr>changedTouches := Some [\<lparr>touch_id = 5, touchX = 1, touchY = 2\<rparr>]\<rparr>)
        True,
      Invoked (sample_event\<lparr>changedTouches := Some [\<lparr>touch_id = 5, touchX = 1, touchY = 2\<rparr>],
                 clientX := 1, clientY := 2\<rparr>),
      Checked (sample_event\<lparr>changedTouches := Some [\<lparr>touch_id = 6, touchX = 3, touchY = 4\<rparr>]\<rparr>)
        False]"
  by (simp add: wrapFunc_def splitEventByTouches_def sample_event_def sample_api_def
      sample_listener_def sample_func_def call_func_def Let_def)

theorem wrapFunc_checks_witness:
  "length (splitEventByTouches sample_event) = 2 \<and>
   calls (wrapFunc fixed_api None sum_func True sample_event sum_listener) =
     [Invoked (sample_event\<lparr>changedTouches := Some [\<lparr>touch_id = 5, touchX = 1, touchY = 2\<rparr>],
                 clientX := 1, clientY := 2\<rparr>),
      Invoked (sample_event\<lparr>changedTouches := Some [\<lparr>touch_id = 6, touchX = 3, touchY = 4\<rparr>],
                 clientX := 3, clientY := 4\<rparr>)] \<and>
   world (wrapFunc fixed_api None sum_func True sample_event sum_listener) = 4 \<and>
   handled (wrapFunc fixed_api None sum_func True sample_event sum_listener) \<and>
   invoked_events (calls (wrapFunc fixed_api None sum_func False sample_event sum_listener)) =
     [sample_event\<lparr>changedTouches := Some [\<lparr>touch_id = 5, touchX = 1, touchY = 2\<rparr>],
                 clientX := 1, clientY := 2\<rparr>] \<and>
   world (wrapFunc fixed_api None sum_func False sample_event sum_listener) = 1 \<and>
   handled (wrapFunc fixed_api None sum_func False sample_event sum_listener)"
proof -
  note t = wrapFunc_checks
    [of sample_event fixed_api None sum_func sum_listener accepts_5 True]
  have h: "\<forall>ev w. fst (shouldHandleEvent fixed_api ev w) = accepts_5 ev"
    by (simp add: fixed_api_def)
  have h2: "\<forall>ev w. shouldHandleEvent fixed_api ev w = (accepts_5 ev, w)"
    by (simp add: fixed_api_def)
  have sp: "splitEventByTouches sample_event =
      [sample_event\<lparr>changedTouches := Some [\<lparr>touch_id = 5, touchX = 1, touchY = 2\<rparr>]\<rparr>,
       sample_event\<lparr>changedTouches := Some [\<lparr>touch_id = 6, touchX = 3, touchY = 4\<rparr>]\<rparr>]"
    by (simp add: splitEventByTouches_def sample_event_def)
  have c: "calls sum_listener = []" "world sum_listener = 0" "\<not> handled sum_listener"
    by (simp_all add: sum_listener_def)
  have sc: "\<And>ev. setClientFromTouch fixed_api ev =
      (case changedTouches ev of None \<Rightarrow> ev
       | Some ts \<Rightarrow> ev\<lparr>clientX := touchX (hd ts), clientY := touchY (hd ts)\<rparr>)"
    by (simp add: fixed_api_def sample_api_def)
  have a: "length (splitEventByTouches sample_event) =
      (case changedTouches sample_event of None \<Rightarrow> 1 | Some ts \<Rightarrow> length ts)"
    and b: "calls (wrapFunc fixed_api None sum_func True sample_event sum_listener) =
      calls sum_listener @
      map (\<lambda>ev. Invoked (setClientFromTouch fixed_api ev)) (splitEventByTouches sample_event)"
    and bw: "world (wrapFunc fixed_api None sum_func True sample_event sum_listener) =
      fold (\<lambda>ev. sum_func None (setClientFromTouch fixed_api ev))
        (splitEventByTouches sample_event) (world sum_listener)"
    and bh: "handled (wrapFunc fixed_api None sum_func True sample_event sum_listener) =
      (handled sum_listener \<or> splitEventByTouches sample_event \<noteq> [])"
    using t by blast+
  have d: "invoked_events
        (calls (wrapFunc fixed_api None sum_func False sample_event sum_listener)) =
      invoked_events (calls sum_listener) @
      map (setClientFromTouch fixed_api) (filter accepts_5 (splitEventByTouches sample_event))"
    and dh: "handled (wrapFunc fixed_api None sum_func False sample_event sum_listener) =
      (handled sum_listener \<or> filter accepts_5 (splitEventByTouches sample_event) \<noteq> [])"
    using t h by blast+
  have dw: "world (wrapFunc fixed_api None sum_func False sample_event sum_listener) =
      fold (\<lambda>ev. sum_func None (setClientFromTouch fixed_api ev))
        (filter accepts_5 (splitEventByTouches sample_event)) (world sum_listener)"
    using t h2 by blast
  have r1: "length (splitEventByTouches sample_event) = 2"
    by (simp add: a) (simp add: sample_event_def)
  have r2: "calls (wrapFunc fixed_api None sum_func True sample_event sum_listener) =
     [Invoked (sample_event\<lparr>changedTouches := Some [\<lparr>touch_id = 5, touchX = 1, touchY = 2\<rparr>],
                 clientX := 1, clientY := 2\<rparr>),
      Invoked (sample_event\<lparr>changedTouches := Some [\<lparr>touch_id = 6, touchX = 3, touchY = 4\<rparr>],
                 clientX := 3, clientY := 4\<rparr>)]"
    by (simp add: b c sp sc)
  have r3: "world (wrapFunc fixed_api None sum_func True sample_event sum_listener) = 4"
    by (simp add: bw c sp sc sum_func_def)
  have r4: "handled (wrapFunc fixed_api None sum_func True sample_event sum_listener)"
    by (simp add: bh sp)
  have r5: "invoked_events
        (calls (wrapFunc fixed_api None sum_func False sample_event sum_listener)) =
     [sample_event\<lparr>changedTouches := Some [\<lparr>touch_id = 5, touchX = 1, touchY = 2\<rparr>],
                 clientX := 1, clientY := 2\<rparr>]"
    by (simp add: d c sp sc accepts_5_def)
  have r6: "world (wrapFunc fixed_api None sum_func False sample_event sum_listener) = 1"
    by (simp add: dw c sp sc accepts_5_def sum_func_def)
  have r7: "handled (wrapFunc fixed_api None sum_func False sample_event sum_listener)"
    by (simp add: dh sp accepts_5_def)
  show ?thesis using r1 r2 r3 r4 r5 r6 r7 by blast
qed

section \<open>Properties of the number test\<close>

lemma nullable_lang: "nullable r \<longleftrightarrow> [] \<in> lang r"
  by (induction r) (auto intro: repetitions.none)

lemma repetitions_Cons:
  "c # w \<in> repetitions A \<longleftrightarrow> (\<exists>u v. w = u @ v \<and> c # u \<in> A \<and> v \<in> repetitions A)"
proof
  assume "c # w \<in> repetitions A"
  then show "\<exists>u v. w = u @ v \<and> c # u \<in> A \<and> v \<in> repetitions A"
  proof (induction "c # w" arbitrary: w rule: repetitions.induct)
    case (more u v)
    show ?case
    proof (cases u)
      case Nil
      with more show ?thesis by simp
    next
      case (Cons a u')
      with more.hyps more.prems have "a = c" "w = u' @ v" by simp_all
      with Cons more.hyps show ?thesis by blast
    qed
  qed
next
  assume "\<exists>u v. w = u @ v \<and> c # u \<in> A \<and> v \<in> repetitions A"
  then obtain u v where "w = u @ v" "c # u \<in> A" "v \<in> repetitions A" by blast
  then have "(c # u) @ v \<in> repetitions A" by (intro repetitions.more)
  then show "c # w \<in> repetitions A" using \<open>w = u @ v\<close> by simp
qed

lemma deriv_lang: "w \<in> lang (deriv c r) \<longleftrightarrow> c # w \<in> lang r"
proof (induction r arbitrary: w)
  case (Seq r s)
  show ?case
  proof (cases "nullable r")
    case True
    then have e: "[] \<in> lang r" by (simp add: nullable_lang)
    show ?thesis
      using True e Seq by (auto simp: Cons_eq_append_conv; blast)
  next
    case False
    then have e: "[] \<notin> lang r" by (simp add: nullable_lang)
    show ?thesis
      using False e Seq by (auto simp: Cons_eq_append_conv; blast)
  qed
next
  case (Star r)
  show ?case using Star by (auto simp: repetitions_Cons)
qed auto

lemma matches_lang: "matches r w \<longleftrightarrow> w \<in> lang r"
  unfolding matches_def
  by (induction w arbitrary: r) (simp_all add: nullable_lang deriv_lang)

lemma repetitions_Class: "w \<in> repetitions (lang (Class p)) \<longleftrightarrow> list_all p w"
proof
  assume "w \<in> repetitions (lang (Class p))"
  then show "list_all p w" by (induction rule: repetitions.induct) auto
next
  assume "list_all p w"
  then show "w \<in> repetitions (lang (Class p))"
  proof (induction w)
    case Nil
    show ?case by (rule repetitions.none)
  next
    case (Cons c w)
    then have "[c] \<in> lang (Class p)" "w \<in> repetitions (lang (Class p))" by simp_all
    then have "[c] @ w \<in> repetitions (lang (Class p))" by (rule repetitions.more)
    then show ?case by simp
  qed
qed

lemma lang_Star_Class: "w \<in> lang (Star (Class p)) \<longleftrightarrow> list_all p w"
  by (simp only: lang.simps(6) repetitions_Class)

lemma lang_Seq_iff: "w \<in> lang (Seq r s) \<longleftrightarrow> (\<exists>u v. w = u @ v \<and> u \<in> lang r \<and> v \<in> lang s)"
  by auto

lemma lang_Class_iff: "u \<in> lang (Class p) \<longleftrightarrow> (\<exists>c. u = [c] \<and> p c)"
  by auto

lemma lang_Plus_Class: "w \<in> lang (Plus (Class p)) \<longleftrightarrow> w \<noteq> [] \<and> list_all p w"
proof -
  have "w \<in> lang (Plus (Class p)) \<longleftrightarrow> (\<exists>c v. w = [c] @ v \<and> p c \<and> list_all p v)"
    unfolding Plus_def lang_Seq_iff lang_Star_Class lang_Class_iff by blast
  also have "\<dots> \<longleftrightarrow> w \<noteq> [] \<and> list_all p w"
    by (cases w) auto
  finally show ?thesis .
qed

lemma lang_Opt: "w \<in> lang (Opt r) \<longleftrightarrow> w = [] \<or> w \<in> lang r"
  by (auto simp: Opt_def)

lemma lang_Chr: "w \<in> lang (Chr c) \<longleftrightarrow> w = [c]"
  by (auto simp: Chr_def)

lemma lang_fraction:
  "frac \<in> lang (Opt (Seq (Chr CHR ''.'') (Plus (Class is_digit)))) \<longleftrightarrow>
   (frac = [] \<or> (\<exists>fs. frac = CHR ''.'' # fs \<and> fs \<noteq> [] \<and> list_all is_digit fs))"
proof -
  have "frac \<in> lang (Seq (Chr CHR ''.'') (Plus (Class is_digit))) \<longleftrightarrow>
      (\<exists>fs. frac = [CHR ''.''] @ fs \<and> fs \<noteq> [] \<and> list_all is_digit fs)"
    unfolding lang_Seq_iff lang_Chr lang_Plus_Class by blast
  then show ?thesis unfolding lang_Opt by simp
qed

lemma lang_sign: "sign \<in> lang (Opt (Chr CHR ''-'')) \<longleftrightarrow> (sign = [] \<or> sign = ''-'')"
  unfolding lang_Opt lang_Chr by simp

lemma lang_number_pattern: "s \<in> lang number_pattern \<longleftrightarrow> number_syntax s"
  unfolding number_pattern_def number_syntax_def lang_Seq_iff [of _ "Star (Class is_space)"]
    lang_Seq_iff [of _ "Opt (Chr CHR ''-'')"] lang_Seq_iff [of _ "Plus (Class is_digit)"]
    lang_Seq_iff [of _ "Opt (Seq (Chr CHR ''.'') (Plus (Class is_digit)))"]
    lang_fraction lang_sign lang_Star_Class lang_Plus_Class
  by blast

lemmas isNumber_eval =
  isNumber_def matches_def number_pattern_def Chr_def Opt_def Plus_def is_space_def is_digit_def

text \<open>
  Claim C9. \<open>Blockly.isNumber\<close> is true for exactly the strings made of optional leading
  white space, an optional minus sign, one or more digits, an optional fractional part
  (a dot followed by one or more digits) and optional trailing white space. In
  particular it rejects a leading plus sign, a leading dot, a trailing dot and exponent
  notation.
\<close>

theorem isNumber_syntax:
  "(isNumber s \<longleftrightarrow> number_syntax s) \<and>
   \<not> isNumber ''+5'' \<and> \<not> isNumber ''.5'' \<and> \<not> isNumber ''5.'' \<and> \<not> isNumber ''1e5''"
proof (intro conjI)
  show "isNumber s \<longleftrightarrow> number_syntax s"
    by (simp add: isNumber_def matches_lang lang_number_pattern)
  show "\<not> isNumber ''+5''" by (simp add: isNumber_eval)
  show "\<not> isNumber ''.5''" by (simp add: isNumber_eval)
  show "\<not> isNumber ''5.''" by (simp add: isNumber_eval)
  show "\<not> isNumber ''1e5''" by (simp add: isNumber_eval)
qed

theorem isNumber_syntax_witness:
  "isNumber '' -12.50 '' \<and> number_syntax '' -12.50 '' \<and>
   \<not> isNumber ''- 1'' \<and> \<not> number_syntax ''- 1''"
proof -
  have a: "isNumber '' -12.50 ''" by (simp add: isNumber_eval)
  have b: "\<not> isNumber ''- 1''" by (simp add: isNumber_eval)
  from a b isNumber_syntax [of "'' -12.50 ''"] isNumber_syntax [of "''- 1''"]
  show ?thesis by blast
qed

section \<open>Properties of the \<open>controls_if\<close> mutation\<close>

subsection \<open>Loops and names\<close>

lemma upto_iterations: "[1..int (iterations n)] = js_upto n"
proof (cases n)
  case NaN
  then show ?thesis by (simp add: iterations_def js_upto_def)
next
  case (Num k)
  show ?thesis
  proof (cases "k \<le> 0")
    case True
    with Num show ?thesis by (simp add: iterations_def js_upto_def)
  next
    case False
    with Num show ?thesis by (simp add: iterations_def js_upto_def)
  qed
qed

lemma length_js_upto: "length (js_upto n) = iterations n"
  by (cases n) (simp_all add: iterations_def js_upto_def)

lemma upto_snoc: "[1..int (Suc m)] = [1..int m] @ [int m + 1]"
  using upto_rec2 [of 1 "int (Suc m)"] by simp

lemma ToString_Num_eq [simp]: "ToString (Num i) = ToString (Num j) \<longleftrightarrow> i = j"
  using ToString_Num_inj by blast

lemma ToString_0: "ToString (Num 0) = ''0''"
  by (simp add: ToString_def nat_digits.simps digit_char_def)

lemma ToString_1: "ToString (Num 1) = ''1''"
  by (simp add: ToString_def nat_digits.simps digit_char_def)

lemma ToString_not_0: "i \<noteq> 0 \<Longrightarrow> ToString (Num i) \<noteq> ''0''"
  using ToString_Num_eq [of i 0] by (simp add: ToString_0)

lemma truthy_simps [simp]:
  "truthy NaN = False" "truthy (Num k) = (k \<noteq> 0)"
  by (simp_all add: truthy_def)

lemma name_inputs [simp]:
  "name (if_input i c) = ''IF'' @ ToString i" "name (do_input i c) = ''DO'' @ ToString i"
  "name (else_input c) = ''ELSE''"
  by (simp_all add: if_input_def do_input_def else_input_def value_input_def
      statement_input_def)

subsection \<open>Mutation to and from XML\<close>

lemma fold_appendInput:
  "fold (\<lambda>i b. appendInput (do_input (Num i) None) (appendInput (if_input (Num i) None) b)) is b =
     b\<lparr>inputList := inputList b @
          concat (map (\<lambda>i. [if_input (Num i) None, do_input (Num i) None]) is)\<rparr>"
  by (induction "is" arbitrary: b) (simp_all add: appendInput_def)

lemma domToMutation_eq:
  "domToMutation x b =
     \<lparr>elseifCount = parseInt10 (getAttribute x ''elseif''),
      elseCount = parseInt10 (getAttribute x ''else''),
      inputList = inputList b @
        optional_inputs (parseInt10 (getAttribute x ''elseif''))
          (parseInt10 (getAttribute x ''else''))\<rparr>"
  unfolding domToMutation_def Let_def fold_appendInput
  by (simp add: appendInput_def optional_inputs_def)

lemma mutationToDom_None:
  "mutationToDom b = None \<longleftrightarrow> \<not> truthy (elseifCount b) \<and> \<not> truthy (elseCount b)"
  by (simp add: mutationToDom_def Let_def)

lemma getAttribute_no_attributes [simp]: "getAttribute (Element n [] cs) m = None"
  by (simp add: getAttribute_def)

lemma mutationToDom_Some:
  assumes "mutationToDom b = Some x"
  shows "nodeName x = ''mutation''"
    and "getAttribute x ''elseif'' =
      (if truthy (elseifCount b) then Some (ToString (elseifCount b)) else None)"
    and "getAttribute x ''else'' = (if truthy (elseCount b) then Some ''1'' else None)"
  using assms
  by (auto simp: mutationToDom_def Let_def getAttribute_setAttribute ToString_1
      split: if_splits)

lemma parseInt10_null: "parseInt10 None = NaN"
  by (simp add: parseInt10_def is_space_def is_digit_def)

lemma parseInt10_1: "parseInt10 (Some ''1'') = Num 1"
  using parseInt10_ToString [of 1] by (simp add: ToString_1)

lemma optional_inputs_falsy:
  "optional_inputs (if truthy n then n else NaN) (if truthy e then Num 1 else NaN) =
     optional_inputs n e"
  by (cases n; cases e) (auto simp: optional_inputs_def js_upto_def)

text \<open>
  What the round trip through XML gives in general: the inputs are those of the
  counters, a nonzero else-if count comes back, a nonzero else count comes back as 1, and
  a counter that was zero (its attribute is not written) comes back as NaN.
\<close>

lemma domToMutation_mutationToDom:
  assumes "mutationToDom b = Some x"
  shows "domToMutation x b0 =
     \<lparr>elseifCount = (if truthy (elseifCount b) then elseifCount b else NaN),
      elseCount = (if truthy (elseCount b) then Num 1 else NaN),
      inputList = inputList b0 @ optional_inputs (elseifCount b) (elseCount b)\<rparr>"
proof -
  have a: "parseInt10 (getAttribute x ''elseif'') =
      (if truthy (elseifCount b) then elseifCount b else NaN)"
    by (cases "elseifCount b")
       (simp_all add: mutationToDom_Some(2) [OF assms] parseInt10_null parseInt10_ToString)
  have c: "parseInt10 (getAttribute x ''else'') = (if truthy (elseCount b) then Num 1 else NaN)"
    by (simp add: mutationToDom_Some(3) [OF assms] parseInt10_null parseInt10_1)
  show ?thesis
    unfolding domToMutation_eq a c optional_inputs_falsy ..
qed

text \<open>
  Claim C7. \<open>mutationToDom\<close> returns \<open>null\<close> exactly when both counters are zero and
  otherwise a \<open>mutation\<close> element carrying the counts, from which \<open>domToMutation\<close> should
  restore the same counters and append the inputs. The code does not restore a counter
  that is zero: for the block with no else-if clause and an else clause the element is
  \<open><mutation else="1">\<close>, \<open>getAttribute('elseif')\<close> is \<open>null\<close> and \<open>parseInt\<close> makes the
  else-if counter NaN, where the block had 0. The else counter and the inputs are
  restored.
\<close>

theorem domToMutation_zero_count:
  "elseifCount (sample_if 0 1) = Num 0 \<and>
   mutationToDom (sample_if 0 1) = Some (Element ''mutation'' [(''else'', ''1'')] []) \<and>
   elseifCount (domToMutation (Element ''mutation'' [(''else'', ''1'')] []) init_block) = NaN \<and>
   elseCount (domToMutation (Element ''mutation'' [(''else'', ''1'')] []) init_block) = Num 1 \<and>
   inputList (domToMutation (Element ''mutation'' [(''else'', ''1'')] []) init_block) =
     inputList (sample_if 0 1)"
proof -
  have m: "mutationToDom (sample_if 0 1) = Some (Element ''mutation'' [(''else'', ''1'')] [])"
    by (simp add: mutationToDom_def sample_if_def Let_def setAttribute_def ToString_1)
  show ?thesis
    using domToMutation_mutationToDom [OF m, of init_block]
    by (simp add: m) (simp add: sample_if_def)
qed

subsection \<open>The mutator dialog\<close>

lemma fold_snoc_replicate:
  "fold (\<lambda>i chain. chain @ [x]) is acc = acc @ replicate (length is) x"
  by (induction "is" arbitrary: acc) (simp_all add: replicate_app_Cons_same)

lemma stack_decompose:
  "stack (decompose b) =
     replicate (iterations (elseifCount b)) (newBlock ''controls_if_elseif'') @
     (if truthy (elseCount b) then [newBlock ''controls_if_else''] else [])"
  by (simp add: decompose_def Let_def fold_snoc_replicate length_js_upto)

lemma remove_named_append:
  "n \<notin> name ` set xs \<Longrightarrow> name i = n \<Longrightarrow> remove_named n (xs @ i # rest) = Some (xs @ rest)"
  by (induction xs) auto

lemma removeInput_append:
  assumes "inputList b = xs @ i # rest" and "n \<notin> name ` set xs" and "name i = n"
  shows "removeInput n b = Inr (b\<lparr>inputList := xs @ rest\<rparr>)"
  by (simp add: removeInput_def assms(1) remove_named_append [OF assms(2,3)])

lemma elseif_names_Suc:
  "elseif_names (Suc m) =
     elseif_names m @ [''IF'' @ ToString (Num (int m + 1)), ''DO'' @ ToString (Num (int m + 1))]"
  unfolding elseif_names_def upto_snoc by simp

lemma elseif_names_fresh:
  "''IF'' @ ToString (Num (int m + 1)) \<notin> set (elseif_names m)"
  "''DO'' @ ToString (Num (int m + 1)) \<notin> set (elseif_names m)"
  by (auto simp: elseif_names_def)

lemma remove_elseifs_all:
  assumes "inputList b = pre @ ys" and "map name ys = elseif_names m"
    and "\<forall>i. 1 \<le> i \<longrightarrow> ''IF'' @ ToString (Num i) \<notin> name ` set pre \<and>
                       ''DO'' @ ToString (Num i) \<notin> name ` set pre"
  shows "remove_elseifs (rev [1..int m]) b = Inr (b\<lparr>inputList := pre\<rparr>)"
  using assms(1,2)
proof (induction m arbitrary: b ys)
  case 0
  then show ?case by (simp add: elseif_names_def)
next
  case (Suc m)
  let ?i = "int m + 1"
  from Suc.prems(2) obtain ys' a d where ys: "ys = ys' @ [a, d]"
    and n: "map name ys' = elseif_names m" "name a = ''IF'' @ ToString (Num ?i)"
      "name d = ''DO'' @ ToString (Num ?i)"
    by (auto simp: elseif_names_Suc map_eq_append_conv)
  have pre: "''IF'' @ ToString (Num ?i) \<notin> name ` set pre"
    "''DO'' @ ToString (Num ?i) \<notin> name ` set pre"
    using assms(3) by simp_all
  have f1: "''IF'' @ ToString (Num ?i) \<notin> name ` set (pre @ ys')"
    using pre(1) elseif_names_fresh(1) [of m] n(1) by (metis image_Un image_set set_append Un_iff)
  have r1: "removeInput (''IF'' @ ToString (Num ?i)) b = Inr (b\<lparr>inputList := (pre @ ys') @ [d]\<rparr>)"
    using removeInput_append [of b "pre @ ys'" a "[d]", OF _ f1 n(2)] Suc.prems(1) ys by simp
  have f2: "''DO'' @ ToString (Num ?i) \<notin> name ` set (pre @ ys')"
    using pre(2) elseif_names_fresh(2) [of m] n(1) by (metis image_Un image_set set_append Un_iff)
  let ?b1 = "b\<lparr>inputList := (pre @ ys') @ [d]\<rparr>"
  have r2: "removeInput (''DO'' @ ToString (Num ?i)) ?b1 = Inr (?b1\<lparr>inputList := (pre @ ys') @ []\<rparr>)"
    using removeInput_append [of ?b1 "pre @ ys'" d "[]", OF _ f2 n(3)] by simp
  have ih: "remove_elseifs (rev [1..int m]) (b\<lparr>inputList := pre @ ys'\<rparr>) =
      Inr (b\<lparr>inputList := pre @ ys', inputList := pre\<rparr>)"
    using Suc.IH [of "b\<lparr>inputList := pre @ ys'\<rparr>" ys'] n(1) by simp
  have e: "rev [1..int (Suc m)] = ?i # rev [1..int m]"
    unfolding upto_snoc by simp
  show ?case
    unfolding e remove_elseifs.simps r1 sum.case r2 using ih by simp
qed

lemma newBlock_simps [simp]:
  "clause_type (newBlock t) = t" "valueConnection (newBlock t) = None"
  "statementConnection (newBlock t) = None"
  by (simp_all add: newBlock_def)

lemma rebuild_elseifs:
  "elseifCount b = Num j \<Longrightarrow>
   rebuild (replicate m (newBlock ''controls_if_elseif'') @ tail) b =
     rebuild tail
       (b\<lparr>elseifCount := Num (j + int m),
          inputList := inputList b @
            concat (map (\<lambda>i. [if_input (Num i) None, do_input (Num i) None])
                      [j + 1..j + int m])\<rparr>)"
proof (induction m arbitrary: b j)
  case 0
  then have "b\<lparr>elseifCount := Num j\<rparr> = b" by (cases b) simp
  then show ?case by simp
next
  case (Suc m)
  let ?b3 = "b\<lparr>elseifCount := Num (j + 1),
      inputList := inputList b @ [if_input (Num (j + 1)) None, do_input (Num (j + 1)) None]\<rparr>"
  have s: "rebuild (replicate (Suc m) (newBlock ''controls_if_elseif'') @ tail) b =
      rebuild (replicate m (newBlock ''controls_if_elseif'') @ tail) ?b3"
    using Suc.prems by (simp add: Let_def js_inc_def appendInput_def)
  have u: "[j + 1..j + int (Suc m)] = (j + 1) # [j + 1 + 1..j + 1 + int m]"
    using upto_rec1 [of "j + 1" "j + int (Suc m)"] by (simp add: add.commute add.left_commute)
  have "elseifCount ?b3 = Num (j + 1)" by simp
  from Suc.IH [OF this] show ?case
    unfolding s u by (simp add: add.commute add.left_commute)
qed

lemma rebuild_else:
  "rebuild [newBlock ''controls_if_else''] b =
     Inr (b\<lparr>elseCount := js_inc (elseCount b), inputList := inputList b @ [else_input None]\<rparr>)"
  by (simp add: Let_def appendInput_def)

lemma names_optional_inputs:
  "map name (optional_inputs n e) =
     elseif_names (iterations n) @ (if truthy e then [''ELSE''] else [])"
  by (simp add: optional_inputs_def elseif_names_def upto_iterations map_concat comp_def)

lemma ELSE_not_elseif_name: "''ELSE'' \<notin> set (elseif_names m)"
  by (auto simp: elseif_names_def)

lemma init_names_fresh:
  assumes "name i0 = ''IF0''" and "name d0 = ''DO0''"
  shows "\<forall>i. 1 \<le> i \<longrightarrow> ''IF'' @ ToString (Num i) \<notin> name ` set [i0, d0] \<and>
                      ''DO'' @ ToString (Num i) \<notin> name ` set [i0, d0]"
proof (intro allI impI)
  fix i :: int
  assume "1 \<le> i"
  then have "ToString (Num i) \<noteq> ''0''" by (intro ToString_not_0) simp
  then show "''IF'' @ ToString (Num i) \<notin> name ` set [i0, d0] \<and>
             ''DO'' @ ToString (Num i) \<notin> name ` set [i0, d0]"
    by (simp add: assms)
qed

lemma compose_decompose:
  assumes "consistent b"
  shows "compose (decompose b) b =
     Inr \<lparr>elseifCount = Num (int (iterations (elseifCount b))),
          elseCount = (if truthy (elseCount b) then Num 1 else Num 0),
          inputList = take 2 (inputList b) @
            optional_inputs (elseifCount b) (elseCount b)\<rparr>"
proof -
  let ?m = "iterations (elseifCount b)"
  let ?el = "if truthy (elseCount b) then [''ELSE''] else []"
  have names: "map name (inputList b) = ''IF0'' # ''DO0'' # elseif_names ?m @ ?el"
    using assms unfolding consistent_def names_optional_inputs .
  then obtain i0 d0 ys el where l: "inputList b = i0 # d0 # ys @ el"
    and n: "name i0 = ''IF0''" "name d0 = ''DO0''" "map name ys = elseif_names ?m"
      "map name el = ?el"
    by (auto simp: map_eq_Cons_conv map_eq_append_conv)
  let ?b1 = "b\<lparr>inputList := [i0, d0] @ ys\<rparr>"
  have step1: "(if truthy (elseCount b) then removeInput ''ELSE'' b else Inr b) = Inr ?b1"
  proof (cases "truthy (elseCount b)")
    case True
    with n(4) obtain x where el: "el = [x]" "name x = ''ELSE''" by auto
    have "name ` set ys = set (elseif_names ?m)" using n(3) by (metis set_map)
    then have f: "''ELSE'' \<notin> name ` set ([i0, d0] @ ys)"
      by (simp add: n(1,2) image_Un ELSE_not_elseif_name)
    have "inputList b = ([i0, d0] @ ys) @ x # []" using l el by simp
    from removeInput_append [OF this f el(2)] True show ?thesis by simp
  next
    case False
    with n(4) have "el = []" by simp
    then have "?b1 = b" using l by (cases b) simp
    with False show ?thesis by simp
  qed
  let ?b2 = "?b1\<lparr>elseCount := Num 0\<rparr>"
  have down: "js_downto (elseifCount ?b1) = rev [1..int ?m]"
    by (simp add: js_downto_def upto_iterations)
  have step2: "remove_elseifs (js_downto (elseifCount ?b1)) ?b2 = Inr (?b2\<lparr>inputList := [i0, d0]\<rparr>)"
    unfolding down
    by (rule remove_elseifs_all [of ?b2 "[i0, d0]" ys, OF _ n(3) init_names_fresh [OF n(1,2)]])
       simp
  let ?b3 = "?b2\<lparr>inputList := [i0, d0], elseifCount := Num 0\<rparr>"
  let ?b4 = "?b3\<lparr>elseifCount := Num (0 + int ?m),
      inputList := inputList ?b3 @
        concat (map (\<lambda>i. [if_input (Num i) None, do_input (Num i) None]) [0 + 1..0 + int ?m])\<rparr>"
  have step3: "rebuild (stack (decompose b)) ?b3 =
      rebuild (if truthy (elseCount b) then [newBlock ''controls_if_else''] else []) ?b4"
    unfolding stack_decompose by (rule rebuild_elseifs) simp
  have b4: "?b4 =
      \<lparr>elseifCount = Num (int ?m), elseCount = Num 0,
       inputList = [i0, d0] @
         concat (map (\<lambda>i. [if_input (Num i) None, do_input (Num i) None])
                   (js_upto (elseifCount b)))\<rparr>"
    by (cases b) (simp add: upto_iterations)
  have tk: "take 2 (inputList b) = [i0, d0]" using l by simp
  have step4: "rebuild (if truthy (elseCount b) then [newBlock ''controls_if_else''] else []) ?b4 =
      Inr \<lparr>elseifCount = Num (int ?m),
          elseCount = (if truthy (elseCount b) then Num 1 else Num 0),
          inputList = take 2 (inputList b) @
            optional_inputs (elseifCount b) (elseCount b)\<rparr>"
    unfolding b4 tk by (simp add: appendInput_def js_inc_def optional_inputs_def)
  show ?thesis
    unfolding compose_def step1 sum.case step2
    using step3 step4 by simp
qed

lemma consistent_sample_if: "consistent (sample_if n e)"
  by (simp add: consistent_def sample_if_def init_block_def appendInput_def value_input_def
      statement_input_def)

lemma take_2_sample_if: "take 2 (inputList (sample_if n e)) = inputList init_block"
  by (simp add: sample_if_def init_block_def appendInput_def)

text \<open>
  Claim C6, amended. For a \<open>controls_if\<close> block whose inputs are those of its counters:
  \<open>decompose\<close> makes one \<open>controls_if_elseif\<close> block for each \<open>i\<close> from 1 to
  \<open>elseifCount_\<close> and one \<open>controls_if_else\<close> block iff \<open>elseCount_\<close> is truthy; \<open>compose\<close>
  of that container counts them back and rebuilds the inputs \<open>IF1..IFn/DO1..DOn\<close> and
  \<open>ELSE\<close> after the two inputs of \<open>init\<close>. When \<open>elseifCount_\<close> is a non-negative integer
  and \<open>elseCount_\<close> is 0 or 1, the counters are exactly those the block had before.
\<close>

theorem compose_decompose_counts:
  assumes "consistent b"
  shows "stack (decompose b) =
           replicate (iterations (elseifCount b)) (newBlock ''controls_if_elseif'') @
           (if truthy (elseCount b) then [newBlock ''controls_if_else''] else []) \<and>
         compose (decompose b) b =
           Inr \<lparr>elseifCount = Num (int (iterations (elseifCount b))),
                elseCount = (if truthy (elseCount b) then Num 1 else Num 0),
                inputList = take 2 (inputList b) @
                  optional_inputs (elseifCount b) (elseCount b)\<rparr> \<and>
         ((\<exists>k. 0 \<le> k \<and> elseifCount b = Num k) \<and> (elseCount b = Num 0 \<or> elseCount b = Num 1) \<longrightarrow>
          (\<exists>b'. compose (decompose b) b = Inr b' \<and>
                elseifCount b' = elseifCount b \<and> elseCount b' = elseCount b))"
proof (intro conjI impI)
  show "stack (decompose b) =
           replicate (iterations (elseifCount b)) (newBlock ''controls_if_elseif'') @
           (if truthy (elseCount b) then [newBlock ''controls_if_else''] else [])"
    by (rule stack_decompose)
  show c: "compose (decompose b) b =
           Inr \<lparr>elseifCount = Num (int (iterations (elseifCount b))),
                elseCount = (if truthy (elseCount b) then Num 1 else Num 0),
                inputList = take 2 (inputList b) @
                  optional_inputs (elseifCount b) (elseCount b)\<rparr>"
    by (rule compose_decompose [OF assms])
  assume h: "(\<exists>k. 0 \<le> k \<and> elseifCount b = Num k) \<and> (elseCount b = Num 0 \<or> elseCount b = Num 1)"
  then obtain k where k: "0 \<le> k" "elseifCount b = Num k" by blast
  have n: "Num (int (iterations (elseifCount b))) = elseifCount b"
    using k by (simp add: iterations_def)
  have e: "(if truthy (elseCount b) then Num 1 else Num 0) = elseCount b"
    using h by auto
  show "\<exists>b'. compose (decompose b) b = Inr b' \<and>
                elseifCount b' = elseifCount b \<and> elseCount b' = elseCount b"
    unfolding c using n e by simp
qed

theorem compose_decompose_counts_witness:
  "consistent (sample_if 2 1) \<and>
   stack (decompose (sample_if 2 1)) =
     [newBlock ''controls_if_elseif'', newBlock ''controls_if_elseif'',
      newBlock ''controls_if_else''] \<and>
   compose (decompose (sample_if 2 1)) (sample_if 2 1) = Inr (sample_if 2 1)"
proof -
  note t = compose_decompose_counts [OF consistent_sample_if [of 2 1]]
  have v: "elseifCount (sample_if 2 1) = Num 2" "elseCount (sample_if 2 1) = Num 1"
    "iterations (Num 2) = 2"
    by (simp_all add: sample_if_def iterations_def)
  have s: "stack (decompose (sample_if 2 1)) =
      replicate (iterations (elseifCount (sample_if 2 1))) (newBlock ''controls_if_elseif'') @
      (if truthy (elseCount (sample_if 2 1)) then [newBlock ''controls_if_else''] else [])"
    and c: "compose (decompose (sample_if 2 1)) (sample_if 2 1) =
      Inr \<lparr>elseifCount = Num (int (iterations (elseifCount (sample_if 2 1)))),
           elseCount = (if truthy (elseCount (sample_if 2 1)) then Num 1 else Num 0),
           inputList = take 2 (inputList (sample_if 2 1)) @
             optional_inputs (elseifCount (sample_if 2 1)) (elseCount (sample_if 2 1))\<rparr>"
    using t by blast+
  have r1: "stack (decompose (sample_if 2 1)) =
     [newBlock ''controls_if_elseif'', newBlock ''controls_if_elseif'',
      newBlock ''controls_if_else'']"
    unfolding s v by (simp add: numeral_2_eq_2)
  have r2: "compose (decompose (sample_if 2 1)) (sample_if 2 1) = Inr (sample_if 2 1)"
    unfolding c take_2_sample_if v by (simp add: sample_if_def)
  show ?thesis using consistent_sample_if [of 2 1] r1 r2 by blast
qed

text \<open>
  The claim as stated fails for counters outside that range. After loading
  \<open><mutation elseif="1">\<close> the else counter is NaN, and \<open>compose\<close> after \<open>decompose\<close>
  makes it 0; an else counter of 2 (from \<open><mutation elseif="1" else="2">\<close>) comes back
  as 1.
\<close>

theorem compose_decompose_counts_counterexample:
  "elseCount (domToMutation (Element ''mutation'' [(''elseif'', ''1'')] []) init_block) = NaN \<and>
   compose (decompose (domToMutation (Element ''mutation'' [(''elseif'', ''1'')] []) init_block))
     (domToMutation (Element ''mutation'' [(''elseif'', ''1'')] []) init_block) =
     Inr (sample_if 1 0) \<and>
   elseCount (sample_if 1 0) = Num 0 \<and>
   domToMutation (Element ''mutation'' [(''elseif'', ''1''), (''else'', ''2'')] []) init_block =
     sample_if 1 2 \<and>
   compose (decompose (sample_if 1 2)) (sample_if 1 2) = Inr (sample_if 1 1) \<and>
   elseCount (sample_if 1 2) = Num 2 \<and> elseCount (sample_if 1 1) = Num 1"
proof -
  let ?x = "Element ''mutation'' [(''elseif'', ''1'')] []"
  let ?b = "domToMutation ?x init_block"
  have p2: "parseInt10 (Some ''2'') = Num 2"
    using parseInt10_ToString [of 2]
    by (simp add: ToString_def nat_digits.simps digit_char_def)
  have o: "optional_inputs (Num 1) NaN = optional_inputs (Num 1) (Num 0)"
    by (simp add: optional_inputs_def)
  have b: "?b = \<lparr>elseifCount = Num 1, elseCount = NaN,
      inputList = inputList init_block @ optional_inputs (Num 1) (Num 0)\<rparr>"
    by (simp add: domToMutation_eq getAttribute_def parseInt10_1 parseInt10_null o)
  have cb: "consistent ?b"
    unfolding b
    by (simp add: consistent_def init_block_def appendInput_def value_input_def
        statement_input_def optional_inputs_def)
  have r1: "elseCount ?b = NaN" by (simp add: b)
  have r2: "compose (decompose ?b) ?b = Inr (sample_if 1 0)"
    unfolding compose_decompose [OF cb]
    unfolding b by (simp add: sample_if_def iterations_def init_block_def appendInput_def
        optional_inputs_def)
  have r3: "domToMutation (Element ''mutation'' [(''elseif'', ''1''), (''else'', ''2'')] [])
      init_block = sample_if 1 2"
    by (simp add: domToMutation_eq getAttribute_def parseInt10_1 p2 sample_if_def)
  have r4: "compose (decompose (sample_if 1 2)) (sample_if 1 2) = Inr (sample_if 1 1)"
    unfolding compose_decompose [OF consistent_sample_if] take_2_sample_if
    by (simp add: sample_if_def iterations_def optional_inputs_def)
  show ?thesis using r1 r2 r3 r4 by (simp add: sample_if_def)
qed

end
